theory Spec2Isabelle
  imports Complex_Main
begin

section \<open>Errors and results\<close>

text \<open>
  The Python exceptions that the modelled functions of \<^verbatim>\<open>abel/basex.py\<close> can raise.
  A \<^verbatim>\<open>ValueError\<close> carries the place it comes from: the two checks of
  \<^verbatim>\<open>generate_basis_sets\<close>, NumPy's refusal of a negative dimension, of operands whose
  shapes do not fit, a tuple unpacking of the wrong arity, and \<^verbatim>\<open>np.load\<close> itself.
  Floating-point numbers are idealised as real numbers and NumPy's 64-bit integers as
  unbounded integers throughout.
\<close>

datatype value_error =
    OddSize
  | TooManyBasis
  | NegativeDimensions
  | ShapesNotAligned
  | BroadcastShapes
  | Unpack
  | LoadValue

datatype error =
    ValueError value_error
  | IndexError
  | UnboundLocalError
  | ZeroDivisionError
  | LinAlgError
  | OSError

fun bindE :: "error + 'a \<Rightarrow> ('a \<Rightarrow> error + 'b) \<Rightarrow> error + 'b" where
  "bindE (Inl e) f = Inl e"
| "bindE (Inr x) f = f x"

text \<open>A \<^verbatim>\<open>for\<close> loop over a list whose body may raise: the first exception ends the loop.\<close>

fun foldM :: "('a \<Rightarrow> 's \<Rightarrow> error + 's) \<Rightarrow> 'a list \<Rightarrow> 's \<Rightarrow> error + 's" where
  "foldM f [] s = Inr s"
| "foldM f (x # xs) s = bindE (f x s) (foldM f xs)"

section \<open>Two-dimensional arrays\<close>

text \<open>
  A two-dimensional \<^verbatim>\<open>ndarray\<close> of floats: its shape and its rows. Every operation
  below builds arrays whose \<open>rows\<close> has \<open>nrows\<close> lists of length \<open>ncols\<close>.
\<close>

datatype ndarray = NDArray (nrows: nat) (ncols: nat) (rows: "real list list")

definition wf_array :: "ndarray \<Rightarrow> bool" where
  "wf_array A = (length (rows A) = nrows A \<and> list_all (\<lambda>r. length r = ncols A) (rows A))"

text \<open>\<^verbatim>\<open>np.zeros((n, m))\<close>; a negative dimension is a \<^verbatim>\<open>ValueError\<close>.\<close>

definition zeros :: "int \<Rightarrow> int \<Rightarrow> error + ndarray" where
  "zeros n m =
     (if n < 0 \<or> m < 0 then Inl (ValueError NegativeDimensions)
      else Inr (NDArray (nat n) (nat m) (replicate (nat n) (replicate (nat m) 0))))"

text \<open>
  An index along an axis of length \<open>len\<close>: a negative index counts from the end, and an
  index outside \<open>-len \<le> i < len\<close> is an \<^verbatim>\<open>IndexError\<close>.
\<close>

definition norm_index :: "nat \<Rightarrow> int \<Rightarrow> error + nat" where
  "norm_index len i =
     (let j = (if i < 0 then i + int len else i)
      in if 0 \<le> j \<and> j < int len then Inr (nat j) else Inl IndexError)"

text \<open>\<^verbatim>\<open>A[i, j]\<close> read and \<^verbatim>\<open>A[i, j] = v\<close>.\<close>

definition getitem :: "ndarray \<Rightarrow> int \<Rightarrow> int \<Rightarrow> error + real" where
  "getitem A i j =
     bindE (norm_index (nrows A) i) (\<lambda>r.
     bindE (norm_index (ncols A) j) (\<lambda>c.
     Inr (rows A ! r ! c)))"

definition setitem :: "ndarray \<Rightarrow> int \<Rightarrow> int \<Rightarrow> real \<Rightarrow> error + ndarray" where
  "setitem A i j v =
     bindE (norm_index (nrows A) i) (\<lambda>r.
     bindE (norm_index (ncols A) j) (\<lambda>c.
     Inr (NDArray (nrows A) (ncols A) ((rows A)[r := (rows A ! r)[c := v]]))))"

text \<open>
  \<^verbatim>\<open>A[:, j] = vs\<close> for a vector \<open>vs\<close>. The synthesizer always assigns a vector of
  \<open>nrows A\<close> values; any other length is reported as NumPy's broadcasting error.
\<close>

definition setcol :: "ndarray \<Rightarrow> int \<Rightarrow> real list \<Rightarrow> error + ndarray" where
  "setcol A j vs =
     bindE (norm_index (ncols A) j) (\<lambda>c.
     if length vs \<noteq> nrows A then Inl (ValueError BroadcastShapes)
     else Inr (NDArray (nrows A) (ncols A) (map (\<lambda>(r, v). r[c := v]) (zip (rows A) vs))))"

text \<open>\<^verbatim>\<open>xs[i]\<close> on a one-dimensional array.\<close>

definition getitem1 :: "'a list \<Rightarrow> int \<Rightarrow> error + 'a" where
  "getitem1 xs i = bindE (norm_index (length xs) i) (\<lambda>r. Inr (xs ! r))"

text \<open>\<^verbatim>\<open>np.arange(a, b)\<close> and \<^verbatim>\<open>range(a, b)\<close> on integers: \<open>a, a + 1, ..., b - 1\<close>.\<close>

definition arange :: "int \<Rightarrow> int \<Rightarrow> int list" where
  "arange a b = [a..b - 1]"

section \<open>The basis synthesizer\<close>

text \<open>
  \<^verbatim>\<open>_nbf_default\<close>: the argument \<^verbatim>\<open>nbf\<close> is either the string \<^verbatim>\<open>'auto'\<close>
  (\<open>None\<close>) or an integer. The warning it prints changes nothing.
\<close>

definition nbf_default :: "int \<Rightarrow> int option \<Rightarrow> int" where
  "nbf_default n nbf = (case nbf of None \<Rightarrow> n div 2 | Some b \<Rightarrow> b)"

definition MAX_BASIS_SET_OFFSET :: int where
  "MAX_BASIS_SET_OFFSET = 4000"

text \<open>
  \<^verbatim>\<open>delta = np.fmax(np.arange(nbf)*32 - MAX_BASIS_SET_OFFSET, MAX_BASIS_SET_OFFSET)\<close>
\<close>

definition delta :: "int \<Rightarrow> int list" where
  "delta nbf =
     map (\<lambda>i. max (i * 32 - MAX_BASIS_SET_OFFSET) MAX_BASIS_SET_OFFSET) (arange 0 nbf)"

text \<open>
  The log-Gamma function \<^verbatim>\<open>scipy.special.gammaln\<close> is a parameter \<open>gammaln\<close> of the
  synthesizer. The normalisation factor of basis function \<open>k\<close>, lines 340 to 346:
\<close>

definition angn :: "(real \<Rightarrow> real) \<Rightarrow> int \<Rightarrow> real" where
  "angn gammaln k =
     (let k2 = k * k
      in exp (of_int k2 - 2 * of_int k2 * ln (of_int k)
              + gammaln (of_int k2 + 0.5) - gammaln 0.5))"

text \<open>One element of the vectorised third loop, lines 371 to 374, for one value of \<open>p\<close>.\<close>

definition series_term :: "(real \<Rightarrow> real) \<Rightarrow> int \<Rightarrow> int \<Rightarrow> int \<Rightarrow> real" where
  "series_term gammaln k l p =
     (let k2 = k * k; l2 = l * l; log_k2 = ln (of_int k2); log_l2 = ln (of_int l2)
      in exp (of_int (k2 - l2) - of_int k2 * log_k2 + of_int p * log_l2
              + gammaln (of_int k2 + 1) - gammaln (of_int p + 1)
              + gammaln (of_int (k2 - p) + 0.5) - gammaln 0.5
              - gammaln (of_int (k2 - p) + 1)))"

text \<open>
  The body of the loop over \<open>l\<close>, lines 350 to 382. Both loops start at 1, so every
  logarithm and the quotient \<open>l / k\<close> have positive arguments.
\<close>

definition inner_step ::
  "(real \<Rightarrow> real) \<Rightarrow> int \<Rightarrow> int list \<Rightarrow> int \<Rightarrow> real \<Rightarrow> int \<Rightarrow> ndarray \<times> ndarray
     \<Rightarrow> error + ndarray \<times> ndarray" where
  "inner_step gammaln Rm dl k an l MMc =
     (case MMc of (M, Mc) \<Rightarrow>
      let k2 = k * k; l2 = l * l;
          val = exp (of_int (k2 - l2) + 2 * of_int k2 * ln ((1.0 * of_int l) / of_int k))
      in bindE (setitem Mc (l - 1 + Rm) k val) (\<lambda>Mc.
         bindE (setitem Mc (Rm - l - 1) k val) (\<lambda>Mc.
         bindE (getitem Mc (l + Rm - 1) 0) (\<lambda>c0.
         let aux = val + an * c0
         in bindE (getitem1 dl k) (\<lambda>dk.
            let p = arange (max 1 (l2 - dk)) (min (k2 - 1) (l2 + dk) + 1);
                aux = aux + sum_list (map (series_term gammaln k l) p);
                aux = aux * 2
            in bindE (setitem M (l + Rm - 1) k aux) (\<lambda>M.
               bindE (setitem M (Rm - l - 1) k aux) (\<lambda>M.
               Inr (M, Mc))))))))"

text \<open>The body of the loop over \<open>k\<close>, lines 340 to 382.\<close>

definition outer_step ::
  "(real \<Rightarrow> real) \<Rightarrow> int \<Rightarrow> int \<Rightarrow> int list \<Rightarrow> int \<Rightarrow> ndarray \<times> ndarray
     \<Rightarrow> error + ndarray \<times> ndarray" where
  "outer_step gammaln n Rm dl k MMc =
     (case MMc of (M, Mc) \<Rightarrow>
      let an = angn gammaln k
      in bindE (setitem M (Rm - 1) k (2 * an)) (\<lambda>M.
         foldM (inner_step gammaln Rm dl k an) (arange 1 (n - Rm + 1)) (M, Mc)))"

text \<open>
  \<^verbatim>\<open>generate_basis_sets(n, nbf, verbose)\<close>. Printing is left out, except that the last
  progress line reads the loop variable \<^verbatim>\<open>k\<close>, which is unbound when the loop over
  \<^verbatim>\<open>range(1, nbf)\<close> ran no iteration.
\<close>

definition generate_basis_sets ::
  "(real \<Rightarrow> real) \<Rightarrow> int \<Rightarrow> int option \<Rightarrow> bool \<Rightarrow> error + ndarray \<times> ndarray" where
  "generate_basis_sets gammaln n nbf0 verbose =
     (if n mod 2 = 0 then Inl (ValueError OddSize)
      else
        let nbf = nbf_default n nbf0
        in if n div 2 < nbf then Inl (ValueError TooManyBasis)
           else
             let Rm = n div 2 + 1;
                 I = arange 1 (n + 1);
                 R2 = map (\<lambda>i. (i - Rm) ^ 2) I
             in bindE (zeros n nbf) (\<lambda>M.
                bindE (zeros n nbf) (\<lambda>Mc.
                bindE (setcol M 0 (map (\<lambda>r. 2 * exp (- of_int r)) R2)) (\<lambda>M.
                bindE (setcol Mc 0 (map (\<lambda>r. exp (- of_int r)) R2)) (\<lambda>Mc.
                let dl = delta nbf
                in bindE (foldM (outer_step gammaln n Rm dl) (arange 1 nbf) (M, Mc)) (\<lambda>MMc.
                   if verbose \<and> nbf \<le> 1 then Inl UnboundLocalError else Inr MMc))))))"

section \<open>Linear algebra on arrays\<close>

text \<open>The matrix product, the transpose \<^verbatim>\<open>A.T\<close>, \<^verbatim>\<open>np.identity(n)\<close>, an array times a
  scalar and the sum of two arrays of one shape, entry by entry.\<close>

definition matmul :: "ndarray \<Rightarrow> ndarray \<Rightarrow> ndarray" where
  "matmul A B =
     NDArray (nrows A) (ncols B)
       (map (\<lambda>i. map (\<lambda>j. \<Sum>k\<leftarrow>[0..<ncols A]. rows A ! i ! k * rows B ! k ! j)
                    [0..<ncols B])
            [0..<nrows A])"

definition T :: "ndarray \<Rightarrow> ndarray" where
  "T A =
     NDArray (ncols A) (nrows A)
       (map (\<lambda>j. map (\<lambda>i. rows A ! i ! j) [0..<nrows A]) [0..<ncols A])"

definition identity :: "nat \<Rightarrow> ndarray" where
  "identity n =
     NDArray n n (map (\<lambda>i. map (\<lambda>j. if i = j then 1 else 0) [0..<n]) [0..<n])"

definition scale :: "ndarray \<Rightarrow> real \<Rightarrow> ndarray" where
  "scale A q = NDArray (nrows A) (ncols A) (map (map (\<lambda>x. x * q)) (rows A))"

definition mat_add :: "ndarray \<Rightarrow> ndarray \<Rightarrow> ndarray" where
  "mat_add A B =
     NDArray (nrows A) (ncols A)
       (map (\<lambda>(r, s). map (\<lambda>(x, y). x + y) (zip r s)) (zip (rows A) (rows B)))"

text \<open>
  \<^verbatim>\<open>A.dot(B)\<close> raises a \<^verbatim>\<open>ValueError\<close> unless the inner dimensions agree. \<^verbatim>\<open>A + B\<close> is
  only ever applied to two arrays of one shape; other shapes are reported as NumPy's
  broadcasting error.
\<close>

definition dot :: "ndarray \<Rightarrow> ndarray \<Rightarrow> error + ndarray" where
  "dot A B = (if ncols A \<noteq> nrows B then Inl (ValueError ShapesNotAligned) else Inr (matmul A B))"

definition add :: "ndarray \<Rightarrow> ndarray \<Rightarrow> error + ndarray" where
  "add A B =
     (if nrows A \<noteq> nrows B \<or> ncols A \<noteq> ncols B then Inl (ValueError BroadcastShapes)
      else Inr (mat_add A B))"

text \<open>
  \<^verbatim>\<open>numpy.linalg.inv\<close> is a parameter \<open>np_inv\<close>: \<open>None\<close> stands for the
  \<^verbatim>\<open>LinAlgError\<close> it raises on a matrix it cannot invert.
\<close>

definition inv_call :: "(ndarray \<Rightarrow> ndarray option) \<Rightarrow> ndarray \<Rightarrow> error + ndarray" where
  "inv_call np_inv A = (case np_inv A of None \<Rightarrow> Inl LinAlgError | Some B \<Rightarrow> Inr B)"

section \<open>The operator builder and the transform\<close>

text \<open>
  \<^verbatim>\<open>_get_left_right_matrices(M, Mc)\<close>, lines 202 to 211. The function
  \<^verbatim>\<open>get_left_right_matrices\<close> of \<^verbatim>\<open>BASEX/core.py\<close>, lines 239 to 245, computes the
  same two expressions on \<^verbatim>\<open>np.matrix\<close> operands.
\<close>

definition get_left_right_matrices ::
  "(ndarray \<Rightarrow> ndarray option) \<Rightarrow> ndarray \<Rightarrow> ndarray \<Rightarrow> error + ndarray \<times> ndarray" where
  "get_left_right_matrices np_inv M Mc =
     bindE (dot (T Mc) Mc) (\<lambda>G.
     bindE (inv_call np_inv G) (\<lambda>Gi.
     bindE (dot Gi (T Mc)) (\<lambda>M_left.
     let q = 1;
         nbf = ncols M;
         E = scale (identity nbf) q
     in bindE (dot (T M) M) (\<lambda>H.
        bindE (add H E) (\<lambda>H.
        bindE (inv_call np_inv H) (\<lambda>Hi.
        bindE (dot M Hi) (\<lambda>M_right.
        Inr (M_left, M_right))))))))"

text \<open>
  The pixel size \<^verbatim>\<open>dr\<close> is a Python number or a NumPy scalar. The two differ in a
  division by zero: the quotient \<^verbatim>\<open>MAGIC_NUMBER/dr\<close> of line 197 raises
  \<^verbatim>\<open>ZeroDivisionError\<close> for a Python zero, and is an infinity (with a warning) for a
  NumPy zero. The in-place product \<^verbatim>\<open>IM *= ...\<close> with an infinity leaves an array of
  infinities and NaNs, which the real idealisation does not represent.
\<close>

datatype number = PyNumber (value_of: real) | NpScalar (value_of: real)

datatype quotient = Quotient real | Infinity

datatype transformed = Finite ndarray | NonFinite

text \<open>\<^verbatim>\<open>a / dr\<close> for a positive Python float \<open>a\<close>.\<close>

definition true_divide :: "real \<Rightarrow> number \<Rightarrow> error + quotient" where
  "true_divide a dr =
     (case dr of
        PyNumber d \<Rightarrow> if d = 0 then Inl ZeroDivisionError else Inr (Quotient (a / d))
      | NpScalar d \<Rightarrow> if d = 0 then Inr Infinity else Inr (Quotient (a / d)))"

text \<open>\<^verbatim>\<open>IM *= q\<close>.\<close>

definition imul :: "ndarray \<Rightarrow> quotient \<Rightarrow> transformed" where
  "imul IM q = (case q of Quotient x \<Rightarrow> Finite (scale IM x) | Infinity \<Rightarrow> NonFinite)"

text \<open>
  \<^verbatim>\<open>basex_transform(rawdata, M, Mc, M_left, M_right, dr)\<close>, lines 176 to 199. The
  function tests neither the shapes nor \<^verbatim>\<open>dr\<close>.
\<close>

definition MAGIC_NUMBER :: real where
  "MAGIC_NUMBER = 8.053"

definition basex_transform ::
  "ndarray \<Rightarrow> ndarray \<Rightarrow> ndarray \<Rightarrow> ndarray \<Rightarrow> ndarray \<Rightarrow> number \<Rightarrow> error + transformed" where
  "basex_transform rawdata M Mc M_left M_right dr =
     bindE (dot M_left rawdata) (\<lambda>C.
     bindE (dot C M_right) (\<lambda>Ci.
     bindE (dot Mc Ci) (\<lambda>D.
     bindE (dot D (T Mc)) (\<lambda>IM.
     bindE (true_divide MAGIC_NUMBER dr) (\<lambda>q.
     Inr (imul IM q))))))"

text \<open>
  The older class of \<^verbatim>\<open>BASEX/core.py\<close> has the same two products in its method
  \<^verbatim>\<open>_basex_transform\<close>, lines 132 to 134, on \<^verbatim>\<open>np.matrix\<close> operands; it takes no
  \<^verbatim>\<open>dr\<close> and applies no scale.
\<close>

definition legacy_basex_transform ::
  "ndarray \<Rightarrow> ndarray \<Rightarrow> ndarray \<Rightarrow> ndarray \<Rightarrow> error + ndarray" where
  "legacy_basex_transform rawdata left right Mc =
     bindE (dot left rawdata) (\<lambda>C.
     bindE (dot C right) (\<lambda>Ci.
     bindE (dot Mc Ci) (\<lambda>D.
     dot D (T Mc))))"

section \<open>The basis cache on disk\<close>

text \<open>
  What \<^verbatim>\<open>np.load\<close> finds in a file: either the load itself raises (a \<^verbatim>\<open>ValueError\<close>
  or another exception, such as an I/O error), or it yields a sequence of objects, which
  the tuple assignment unpacks. An object is \<^verbatim>\<open>None\<close>, an array or a string (the
  version tag).
\<close>

datatype item = NoneObj | Arr ndarray | Str string

datatype load_failure = LoadValueError | LoadOtherError

datatype stored = Unloadable load_failure | Sequence "item list"

definition np_load :: "stored \<Rightarrow> error + item list" where
  "np_load f =
     (case f of
        Unloadable LoadValueError \<Rightarrow> Inl (ValueError LoadValue)
      | Unloadable LoadOtherError \<Rightarrow> Inl OSError
      | Sequence xs \<Rightarrow> Inr xs)"

text \<open>Tuple unpacking into five and into four names: a wrong arity is a \<^verbatim>\<open>ValueError\<close>.\<close>

definition unpack5 :: "item list \<Rightarrow> error + item \<times> item \<times> item \<times> item \<times> item" where
  "unpack5 xs = (case xs of [a, b, c, d, e] \<Rightarrow> Inr (a, b, c, d, e) | _ \<Rightarrow> Inl (ValueError Unpack))"

definition unpack4 :: "item list \<Rightarrow> error + item \<times> item \<times> item \<times> item" where
  "unpack4 xs = (case xs of [a, b, c, d] \<Rightarrow> Inr (a, b, c, d) | _ \<Rightarrow> Inl (ValueError Unpack))"

text \<open>
  The two decoders, lines 256 and 259. Both return the fields in the order
  \<open>(M, Mc, M_left, M_right)\<close>.
\<close>

definition load_current :: "stored \<Rightarrow> error + item \<times> item \<times> item \<times> item" where
  "load_current f =
     bindE (bindE (np_load f) unpack5) (\<lambda>(M, Mc, M_left, M_right, M_version).
     Inr (M, Mc, M_left, M_right))"

definition load_legacy :: "stored \<Rightarrow> error + item \<times> item \<times> item \<times> item" where
  "load_legacy f =
     bindE (bindE (np_load f) unpack4) (\<lambda>(M_left, M_right, M, Mc).
     Inr (M, Mc, M_left, M_right))"

text \<open>
  The \<^verbatim>\<open>try\<close> statement of lines 255 to 263: only a \<^verbatim>\<open>ValueError\<close> of the first load
  leads to the second one; every other exception, and every exception of the second
  load, is raised again. The second load is a parameter here, so that one can tell
  whether it is run; the program runs \<open>load_legacy\<close>.
\<close>

definition load_basis_file_with ::
  "(stored \<Rightarrow> error + item \<times> item \<times> item \<times> item) \<Rightarrow> stored
     \<Rightarrow> error + item \<times> item \<times> item \<times> item" where
  "load_basis_file_with second_load f =
     (case load_current f of
        Inr b \<Rightarrow> Inr b
      | Inl (ValueError v) \<Rightarrow> second_load f
      | Inl e \<Rightarrow> Inl e)"

definition load_basis_file :: "stored \<Rightarrow> error + item \<times> item \<times> item \<times> item" where
  "load_basis_file f = load_basis_file_with load_legacy f"

text \<open>
  What the older constructor of \<^verbatim>\<open>BASEX/core.py\<close> saves, line 96:
  \<^verbatim>\<open>np.save(path_to_basis_file, (left, right, M, Mc))\<close>.
\<close>

definition legacy_tuple :: "ndarray \<Rightarrow> ndarray \<Rightarrow> ndarray \<Rightarrow> ndarray \<Rightarrow> stored" where
  "legacy_tuple left right M Mc = Sequence [Arr left, Arr right, Arr M, Arr Mc]"

text \<open>
  \<^verbatim>\<open>"{}".format(i)\<close> on an integer, and \<^verbatim>\<open>os.path.join(a, b)\<close> for a relative \<open>b\<close>
  (the file name below starts with a letter).
\<close>

fun digits :: "nat \<Rightarrow> string" where
  "digits n =
     (if n < 10 then [char_of (48 + n)] else digits (n div 10) @ [char_of (48 + n mod 10)])"

definition format_int :: "int \<Rightarrow> string" where
  "format_int i = (if i < 0 then CHR ''-'' # digits (nat (- i)) else digits (nat i))"

definition path_join :: "string \<Rightarrow> string \<Rightarrow> string" where
  "path_join a b = (if a = [] \<or> last a = CHR ''/'' then a @ b else a @ ''/'' @ b)"

definition basis_name :: "int \<Rightarrow> int \<Rightarrow> string" where
  "basis_name n nbf = ''basex_basis_'' @ format_int n @ ''_'' @ format_int nbf @ ''.npy''"

text \<open>
  The world outside the program: the files (by path), the paths \<^verbatim>\<open>np.save\<close> can write
  to, and a log of the calls of \<^verbatim>\<open>generate_basis_sets\<close> with their arguments
  \<open>(n, nbf)\<close>, which is what a counter or a mock on the synthesizer observes.
\<close>

record world =
  files :: "string \<rightharpoonup> stored"
  writable :: "string \<Rightarrow> bool"
  synth_log :: "(int \<times> int) list"

text \<open>The external library functions and the package's \<^verbatim>\<open>__version__\<close> string.\<close>

record externals =
  gammaln_of :: "real \<Rightarrow> real"
  inv_of :: "ndarray \<Rightarrow> ndarray option"
  version_of :: string

text \<open>
  \<^verbatim>\<open>np.save(path, ...)\<close> of the five-element tuple, lines 279 and 280: an
  \<^verbatim>\<open>OSError\<close> where the path cannot be written.
\<close>

definition np_save :: "string \<Rightarrow> stored \<Rightarrow> world \<Rightarrow> (error + unit) \<times> world" where
  "np_save path content w =
     (if writable w path then (Inr (), w\<lparr>files := (files w)(path \<mapsto> content)\<rparr>)
      else (Inl OSError, w))"

text \<open>
  Lines 248 to 263 of \<^verbatim>\<open>get_basis_sets_cached\<close>: \<open>None\<close> when nothing was loaded
  (no directory, or no file at the path), else the four loaded fields.
\<close>

definition try_load ::
  "string option \<Rightarrow> string \<Rightarrow> world \<Rightarrow> error + (item \<times> item \<times> item \<times> item) option" where
  "try_load basis_dir name w =
     (case basis_dir of
        None \<Rightarrow> Inr None
      | Some d \<Rightarrow>
          (case files w (path_join d name) of
             None \<Rightarrow> Inr None
           | Some f \<Rightarrow> bindE (load_basis_file f) (\<lambda>b. Inr (Some b))))"

text \<open>Lines 265 to 284: synthesis, operator construction and saving.\<close>

definition synthesize_and_save ::
  "externals \<Rightarrow> int \<Rightarrow> int \<Rightarrow> string option \<Rightarrow> string \<Rightarrow> bool \<Rightarrow> world
     \<Rightarrow> (error + item \<times> item \<times> item \<times> item) \<times> world" where
  "synthesize_and_save ext n nbf basis_dir name verbose w =
     (let w1 = w\<lparr>synth_log := synth_log w @ [(n, nbf)]\<rparr>
      in case generate_basis_sets (gammaln_of ext) n (Some nbf) verbose of
           Inl e \<Rightarrow> (Inl e, w1)
         | Inr (M, Mc) \<Rightarrow>
             (case get_left_right_matrices (inv_of ext) M Mc of
                Inl e \<Rightarrow> (Inl e, w1)
              | Inr (M_left, M_right) \<Rightarrow>
                  (case basis_dir of
                     None \<Rightarrow> (Inr (Arr M, Arr Mc, Arr M_left, Arr M_right), w1)
                   | Some d \<Rightarrow>
                       (case np_save (path_join d name)
                               (Sequence [Arr M, Arr Mc, Arr M_left, Arr M_right,
                                          Str (version_of ext)]) w1 of
                          (Inl e, w2) \<Rightarrow> (Inl e, w2)
                        | (Inr u, w2) \<Rightarrow>
                            (Inr (Arr M, Arr Mc, Arr M_left, Arr M_right), w2)))))"

text \<open>\<^verbatim>\<open>get_basis_sets_cached(n, nbf, basis_dir, verbose)\<close>, lines 228 to 284.\<close>

definition get_basis_sets_cached ::
  "externals \<Rightarrow> int \<Rightarrow> int option \<Rightarrow> string option \<Rightarrow> bool \<Rightarrow> world
     \<Rightarrow> (error + item \<times> item \<times> item \<times> item) \<times> world" where
  "get_basis_sets_cached ext n nbf0 basis_dir verbose w =
     (let nbf = nbf_default n nbf0;
          name = basis_name n nbf
      in case try_load basis_dir name w of
           Inl e \<Rightarrow> (Inl e, w)
         | Inr None \<Rightarrow> synthesize_and_save ext n nbf basis_dir name verbose w
         | Inr (Some (M, Mc, M_left, M_right)) \<Rightarrow>
             if M = NoneObj then synthesize_and_save ext n nbf basis_dir name verbose w
             else (Inr (M, Mc, M_left, M_right), w))"

section \<open>The class \<^verbatim>\<open>BASEX\<close>\<close>

text \<open>The fields that \<^verbatim>\<open>__init__\<close> sets, lines 73 to 84.\<close>

record basex =
  verbose_of :: bool
  calc_speeds_of :: bool
  dr_of :: number
  n_of :: int
  M_of :: item
  Mc_of :: item
  M_left_of :: item
  M_right_of :: item

definition BASEX_init ::
  "externals \<Rightarrow> int \<Rightarrow> int option \<Rightarrow> string option \<Rightarrow> bool \<Rightarrow> number \<Rightarrow> bool \<Rightarrow> world
     \<Rightarrow> (error + basex) \<times> world" where
  "BASEX_init ext n0 nbf basis_dir calc_speeds dr verbose w =
     (let n = 2 * (n0 div 2) + 1
      in case get_basis_sets_cached ext n nbf basis_dir verbose w of
           (Inl e, w') \<Rightarrow> (Inl e, w')
         | (Inr (M, Mc, M_left, M_right), w') \<Rightarrow>
             (Inr \<lparr>verbose_of = verbose, calc_speeds_of = calc_speeds, dr_of = dr, n_of = n,
                   M_of = M, Mc_of = Mc, M_left_of = M_left, M_right_of = M_right\<rparr>, w'))"

section \<open>The formulas of the specification\<close>

text \<open>
  The quantities that the specification of the synthesizer names, written as it words
  them: the window half-width \<open>\<Delta>(k) = max(32k - 4000, 4000)\<close>, the normalisation factor
  \<open>angn\<close>, the closed term \<open>val\<close> and the truncated series over \<open>p\<close>. The function
  \<open>lnGamma\<close> is the log-Gamma evaluator.
\<close>

definition Delta_spec :: "int \<Rightarrow> int" where
  "Delta_spec k = max (32 * k - 4000) 4000"

definition angn_spec :: "(real \<Rightarrow> real) \<Rightarrow> int \<Rightarrow> real" where
  "angn_spec lnGamma k =
     exp (of_int (k\<^sup>2) - 2 * of_int (k\<^sup>2) * ln (of_int k)
          + lnGamma (of_int (k\<^sup>2) + 1/2) - lnGamma (1/2))"

definition val_spec :: "int \<Rightarrow> int \<Rightarrow> real" where
  "val_spec k l = exp (of_int (k\<^sup>2) - of_int (l\<^sup>2) + 2 * of_int (k\<^sup>2) * ln (of_int l / of_int k))"

text \<open>
  The term of the series for one \<open>p\<close>: one exponential of a sum of logarithms and
  log-Gamma values,
  \<open>exp(k\<^sup>2 - l\<^sup>2 - k\<^sup>2 ln(k\<^sup>2) + p ln(l\<^sup>2) + ln\<Gamma>(k\<^sup>2 + 1) - ln\<Gamma>(p + 1)
       + ln\<Gamma>(k\<^sup>2 - p + 1/2) - ln\<Gamma>(1/2) - ln\<Gamma>(k\<^sup>2 - p + 1))\<close>.
\<close>

definition series_term_spec :: "(real \<Rightarrow> real) \<Rightarrow> int \<Rightarrow> int \<Rightarrow> int \<Rightarrow> real" where
  "series_term_spec lnGamma k l p =
     exp (of_int (k\<^sup>2) - of_int (l\<^sup>2) - of_int (k\<^sup>2) * ln (of_int (k\<^sup>2))
          + of_int p * ln (of_int (l\<^sup>2))
          + lnGamma (of_int (k\<^sup>2) + 1) - lnGamma (of_int p + 1)
          + lnGamma (of_int (k\<^sup>2) - of_int p + 1/2) - lnGamma (1/2)
          - lnGamma (of_int (k\<^sup>2) - of_int p + 1))"

definition series_spec :: "(real \<Rightarrow> real) \<Rightarrow> int \<Rightarrow> int \<Rightarrow> real" where
  "series_spec lnGamma k l =
     (\<Sum>p = max 1 (l\<^sup>2 - Delta_spec k)..min (k\<^sup>2 - 1) (l\<^sup>2 + Delta_spec k).
        series_term_spec lnGamma k l p)"

definition M_entry_spec :: "(real \<Rightarrow> real) \<Rightarrow> int \<Rightarrow> int \<Rightarrow> real" where
  "M_entry_spec lnGamma k l =
     2 * (val_spec k l + angn_spec lnGamma k * exp (- of_int (l\<^sup>2)) + series_spec lnGamma k l)"

section \<open>Vocabulary of the proofs\<close>

text \<open>
  The entry of an array at a row and a column that are in range; an array of a given
  shape whose rows all have the right length; the distance of a row from the centre row;
  and the relation between an array and the array after a set of its entries, given by a
  predicate on positions, was overwritten with the values of a function.
\<close>

definition ent :: "ndarray \<Rightarrow> int \<Rightarrow> int \<Rightarrow> real" where
  "ent A i j = rows A ! nat i ! nat j"

definition shaped :: "int \<Rightarrow> int \<Rightarrow> ndarray \<Rightarrow> bool" where
  "shaped n m A = (0 \<le> n \<and> 0 \<le> m \<and> nrows A = nat n \<and> ncols A = nat m \<and> wf_array A)"

definition offset :: "int \<Rightarrow> int \<Rightarrow> int" where
  "offset Rm r = \<bar>r - (Rm - 1)\<bar>"

definition writes ::
  "int \<Rightarrow> int \<Rightarrow> (int \<Rightarrow> int \<Rightarrow> bool) \<Rightarrow> (int \<Rightarrow> int \<Rightarrow> real) \<Rightarrow> ndarray \<Rightarrow> ndarray \<Rightarrow> bool" where
  "writes n m P F A A' =
     (\<forall>r c. 0 \<le> r \<and> r < n \<and> 0 \<le> c \<and> c < m \<longrightarrow> ent A' r c = (if P r c then F r c else ent A r c))"

text \<open>The values that the two loops leave in the columns \<open>c \<ge> 1\<close> of \<open>Mc\<close> and of \<open>M\<close>.\<close>

definition Mc_fun :: "int \<Rightarrow> int \<Rightarrow> int \<Rightarrow> real" where
  "Mc_fun Rm r c = val_spec c (offset Rm r)"

definition M_fun :: "(real \<Rightarrow> real) \<Rightarrow> int \<Rightarrow> int \<Rightarrow> int \<Rightarrow> real" where
  "M_fun g Rm r c = (if r = Rm - 1 then 2 * angn_spec g c else M_entry_spec g c (offset Rm r))"

text \<open>Column 0 of \<open>Mc\<close> holds the Gaussian profile; the loops read it and never write it.\<close>

definition col0_ok :: "int \<Rightarrow> int \<Rightarrow> ndarray \<Rightarrow> bool" where
  "col0_ok n Rm Mc = (\<forall>r. 0 \<le> r \<and> r < n \<longrightarrow> ent Mc r 0 = exp (- of_int ((r + 1 - Rm)\<^sup>2)))"

section \<open>Instances of the external functions\<close>

text \<open>
  The synthesizer calls \<^verbatim>\<open>gammaln\<close> at positive integers and at half-integers only.
  There \<open>\<Gamma>(m) = (m - 1)!\<close> and \<open>\<Gamma>(m + 1/2) = (2m)! \<surd>\<pi> / (4\<^sup>m m!)\<close>, which gives an
  instance of the parameter for concrete runs.
\<close>

definition gammaln_ref :: "real \<Rightarrow> real" where
  "gammaln_ref x =
     (let m = nat \<lfloor>x\<rfloor>
      in if of_nat m = x then ln (fact (m - 1))
         else ln (fact (2 * m) / (4 ^ m * fact m) * sqrt pi))"

text \<open>
  The inverse of a one-by-one matrix, an instance of the parameter \<open>np_inv\<close> for the
  configurations with a single basis function; every other argument is refused.
\<close>

definition inv_ref :: "ndarray \<Rightarrow> ndarray option" where
  "inv_ref A =
     (case rows A of
        [[a]] \<Rightarrow> if nrows A = 1 \<and> ncols A = 1 \<and> a \<noteq> 0 then Some (NDArray 1 1 [[1 / a]]) else None
      | _ \<Rightarrow> None)"

text \<open>The inverse of a two-by-two matrix, by its determinant.\<close>

definition inv2_ref :: "ndarray \<Rightarrow> ndarray option" where
  "inv2_ref A =
     (case rows A of
        [[a, b], [c, d]] \<Rightarrow>
          if nrows A = 2 \<and> ncols A = 2 \<and> a * d - b * c \<noteq> 0
          then Some (NDArray 2 2 [[d / (a * d - b * c), - b / (a * d - b * c)],
                                  [- c / (a * d - b * c), a / (a * d - b * c)]])
          else None
      | _ \<Rightarrow> None)"

definition ext_ref :: externals where
  "ext_ref = \<lparr>gammaln_of = gammaln_ref, inv_of = inv_ref, version_of = ''0.5''\<rparr>"

section \<open>The operators and the transform as the specification words them\<close>

text \<open>
  Matrices as functions from a row and a column to an entry: the entries of an array, the
  array of a given shape with given entries, the product of two matrices whose inner
  dimension is \<open>m\<close>, and the transpose. None of them refers to an array operation of the
  program.
\<close>

definition mat_of :: "ndarray \<Rightarrow> nat \<Rightarrow> nat \<Rightarrow> real" where
  "mat_of A i j = rows A ! i ! j"

definition array_of :: "nat \<Rightarrow> nat \<Rightarrow> (nat \<Rightarrow> nat \<Rightarrow> real) \<Rightarrow> ndarray" where
  "array_of n m f = NDArray n m (map (\<lambda>i. map (f i) [0..<m]) [0..<n])"

definition product_spec ::
  "nat \<Rightarrow> (nat \<Rightarrow> nat \<Rightarrow> real) \<Rightarrow> (nat \<Rightarrow> nat \<Rightarrow> real) \<Rightarrow> nat \<Rightarrow> nat \<Rightarrow> real" where
  "product_spec m f g i j = (\<Sum>k<m. f i k * g k j)"

definition transpose_spec :: "(nat \<Rightarrow> nat \<Rightarrow> real) \<Rightarrow> nat \<Rightarrow> nat \<Rightarrow> real" where
  "transpose_spec f i j = f j i"

text \<open>
  \<open>OpLeft = inverse(Mc\<^sup>T Mc) Mc\<^sup>T\<close> and \<open>OpRight = M inverse(M\<^sup>T M + q I)\<close>, where the
  inverse may not exist, and the transform
  \<open>(8.053 / dr) (Mc (OpLeft X OpRight) Mc\<^sup>T)\<close>, for \<open>M\<close> and \<open>Mc\<close> of shape \<open>n \<times> nbf\<close>.
\<close>

definition OpLeft_spec :: "(ndarray \<Rightarrow> ndarray option) \<Rightarrow> ndarray \<Rightarrow> ndarray option" where
  "OpLeft_spec inv_fn Mc =
     (let n = nrows Mc; nbf = ncols Mc; McT = transpose_spec (mat_of Mc)
      in map_option (\<lambda>Gi. array_of nbf n (product_spec nbf (mat_of Gi) McT))
           (inv_fn (array_of nbf nbf (product_spec n McT (mat_of Mc)))))"

definition OpRight_spec :: "(ndarray \<Rightarrow> ndarray option) \<Rightarrow> ndarray \<Rightarrow> real \<Rightarrow> ndarray option" where
  "OpRight_spec inv_fn M q =
     (let n = nrows M; nbf = ncols M; MT = transpose_spec (mat_of M)
      in map_option (\<lambda>Hi. array_of n nbf (product_spec nbf (mat_of M) (mat_of Hi)))
           (inv_fn (array_of nbf nbf
              (\<lambda>a b. product_spec n MT (mat_of M) a b + q * (if a = b then 1 else 0)))))"

definition transform_spec ::
  "nat \<Rightarrow> nat \<Rightarrow> ndarray \<Rightarrow> ndarray \<Rightarrow> ndarray \<Rightarrow> ndarray \<Rightarrow> real \<Rightarrow> ndarray" where
  "transform_spec n nbf X Mc OpLeft OpRight dr =
     array_of n n (\<lambda>i j. (8.053 / dr) *
       product_spec nbf
         (product_spec nbf (mat_of Mc)
            (product_spec n (product_spec n (mat_of OpLeft) (mat_of X)) (mat_of OpRight)))
         (transpose_spec (mat_of Mc)) i j)"

section \<open>Concrete configurations\<close>

text \<open>
  The two basis matrices of size 3 with one basis function, an image and a row of that
  size, and two operators of the shapes that fit them.
\<close>

definition M3 :: ndarray where
  "M3 = NDArray 3 1 [[2 * exp (- 1)], [2], [2 * exp (- 1)]]"

definition Mc3 :: ndarray where
  "Mc3 = NDArray 3 1 [[exp (- 1)], [1], [exp (- 1)]]"

definition image3 :: ndarray where
  "image3 = NDArray 3 3 [[0, 0, 0], [0, 1, 0], [0, 0, 0]]"

definition row3 :: ndarray where
  "row3 = NDArray 1 3 [[0, 1, 0]]"

definition left3 :: ndarray where
  "left3 = NDArray 1 3 [[1/4, 1/2, 1/4]]"

definition right3 :: ndarray where
  "right3 = NDArray 3 1 [[1/4], [1/2], [1/4]]"

definition McQ :: ndarray where
  "McQ = NDArray 3 1 [[1/2], [1], [1/2]]"

text \<open>A pair of arrays of the shape of size 5 with two basis functions.\<close>

definition basis5 :: ndarray where
  "basis5 = NDArray 5 2 [[1, 0], [1, 1], [0, 1], [0, 0], [0, 0]]"

text \<open>
  Three states of the disk for the directory \<^verbatim>\<open>'.'\<close> and that configuration: no file,
  a file that \<^verbatim>\<open>np.load\<close> cannot read, and a file in the legacy encoding.
\<close>

definition empty_world :: world where
  "empty_world = \<lparr>files = Map.empty, writable = (\<lambda>p. True), synth_log = []\<rparr>"

definition corrupt_world :: world where
  "corrupt_world =
     \<lparr>files = [path_join ''.'' (basis_name 3 1) \<mapsto> Unloadable LoadOtherError],
      writable = (\<lambda>p. True),
      synth_log = []\<rparr>"

definition legacy_file3 :: stored where
  "legacy_file3 = legacy_tuple left3 right3 M3 Mc3"

text \<open>A stand-in for the second load that succeeds on every file.\<close>

definition second_load_stub :: "stored \<Rightarrow> error + item \<times> item \<times> item \<times> item" where
  "second_load_stub f = Inr (Arr M3, Arr Mc3, Arr left3, Arr right3)"

definition legacy_world :: world where
  "legacy_world =
     \<lparr>files = [path_join ''.'' (basis_name 3 1) \<mapsto> legacy_file3],
      writable = (\<lambda>p. True),
      synth_log = []\<rparr>"

section \<open>Arrays, indices and the error monad\<close>

lemma norm_index_ok: "0 \<le> i \<Longrightarrow> i < int d \<Longrightarrow> norm_index d i = Inr (nat i)"
  by (simp add: norm_index_def)

lemma norm_index_error: "norm_index d i = Inl e \<Longrightarrow> e = IndexError"
  by (simp add: norm_index_def Let_def split: if_splits)

lemma bindE_Inl_iff: "bindE m f = Inl e \<longleftrightarrow> m = Inl e \<or> (\<exists>x. m = Inr x \<and> f x = Inl e)"
  by (cases m) auto

lemma bindE_Inr_iff: "bindE m f = Inr y \<longleftrightarrow> (\<exists>x. m = Inr x \<and> f x = Inr y)"
  by (cases m) auto

lemma shapedI:
  "0 \<le> n \<Longrightarrow> 0 \<le> m \<Longrightarrow> length xs = nat n \<Longrightarrow> (\<And>r. r < nat n \<Longrightarrow> length (xs ! r) = nat m)
     \<Longrightarrow> shaped n m (NDArray (nat n) (nat m) xs)"
  by (simp add: shaped_def wf_array_def list_all_length)

lemma shapedD:
  assumes "shaped n m A"
  shows "0 \<le> n" "0 \<le> m" "nrows A = nat n" "ncols A = nat m" "length (rows A) = nat n"
    "\<And>r. r < nat n \<Longrightarrow> length (rows A ! r) = nat m"
  using assms by (simp_all add: shaped_def wf_array_def list_all_length)

lemma getitem_shaped:
  assumes "shaped n m A" "0 \<le> i" "i < n" "0 \<le> j" "j < m"
  shows "getitem A i j = Inr (ent A i j)"
  using assms(2-) shapedD(3,4)[OF assms(1)] by (simp add: getitem_def norm_index_ok ent_def)

lemma getitem_ent:
  assumes "shaped n m A" "0 \<le> i \<and> i < n \<and> 0 \<le> j \<and> j < m"
  shows "getitem A i j = Inr (ent A i j)"
  using getitem_shaped[OF assms(1)] assms(2) by blast

lemma setitem_shaped:
  assumes "shaped n m A" "0 \<le> i" "i < n" "0 \<le> j" "j < m"
  shows "\<exists>A'. setitem A i j v = Inr A' \<and> shaped n m A' \<and>
           (\<forall>r c. 0 \<le> r \<and> r < n \<and> 0 \<le> c \<and> c < m \<longrightarrow>
              ent A' r c = (if r = i \<and> c = j then v else ent A r c))"
proof -
  note D = shapedD[OF assms(1)]
  let ?xs = "(rows A)[nat i := (rows A ! nat i)[nat j := v]]"
  let ?A' = "NDArray (nat n) (nat m) ?xs"
  have eq: "setitem A i j v = Inr ?A'"
    using assms(2-) D(3,4) by (simp add: setitem_def norm_index_ok)
  have rowlen: "length (?xs ! r) = nat m" if "r < nat n" for r
  proof (cases "r = nat i")
    case True
    then show ?thesis using that D(5) D(6)[of r] by simp
  next
    case False
    then show ?thesis using that D(6)[of r] by simp
  qed
  have sh: "shaped n m ?A'"
    by (rule shapedI) (use D(1,2,5) rowlen in simp_all)
  have en: "ent ?A' r c = (if r = i \<and> c = j then v else ent A r c)"
    if "0 \<le> r" "r < n" "0 \<le> c" "c < m" for r c
  proof (cases "r = i")
    case True
    have "nat i < length (rows A)" using assms(2,3) D(5) by simp
    moreover have "nat j < length (rows A ! nat i)" using assms D(6)[of "nat i"] by simp
    ultimately show ?thesis
      using True that assms(2,4) by (auto simp: ent_def nth_list_update)
  next
    case False
    then have "nat r \<noteq> nat i" using that assms by linarith
    then show ?thesis
      using False by (simp add: ent_def)
  qed
  show ?thesis
    using eq sh en by blast
qed

lemma getitem1_delta:
  assumes "0 \<le> k" "k < nbf"
  shows "getitem1 (delta nbf) k = Inr (max (32 * k - 4000) 4000)"
proof -
  have "length (delta nbf) = nat nbf"
    by (simp add: delta_def arange_def)
  moreover have "delta nbf ! nat k = max (32 * k - 4000) 4000"
    using assms by (simp add: delta_def arange_def MAX_BASIS_SET_OFFSET_def mult.commute)
  ultimately show ?thesis
    using assms by (simp add: getitem1_def norm_index_ok)
qed

lemma sum_list_arange: "sum_list (map f (arange a (b + 1))) = sum f {a..b}"
  by (simp add: arange_def flip: sum_set_upto_conv_sum_list_int)

lemma series_term_eq: "series_term g k l = series_term_spec g k l"
  by (rule ext) (simp add: series_term_def series_term_spec_def Let_def power2_eq_square)

lemma angn_eq: "angn g k = angn_spec g k"
  by (simp add: angn_def angn_spec_def Let_def power2_eq_square)

lemma zeros_shaped:
  assumes "0 \<le> n" "0 \<le> m"
  shows "\<exists>Z. zeros n m = Inr Z \<and> shaped n m Z \<and>
           (\<forall>r c. 0 \<le> r \<and> r < n \<and> 0 \<le> c \<and> c < m \<longrightarrow> ent Z r c = 0)"
proof -
  let ?Z = "NDArray (nat n) (nat m) (replicate (nat n) (replicate (nat m) 0))"
  have "zeros n m = Inr ?Z" using assms by (simp add: zeros_def)
  moreover have "shaped n m ?Z" by (rule shapedI) (use assms in simp_all)
  moreover have "ent ?Z r c = 0" if "0 \<le> r" "r < n" "0 \<le> c" "c < m" for r c
    using that by (simp add: ent_def)
  ultimately show ?thesis by blast
qed

lemma setcol_shaped:
  assumes A: "shaped n m A" and m: "0 < m" and vs: "length vs = nat n"
  shows "\<exists>A'. setcol A 0 vs = Inr A' \<and> shaped n m A' \<and>
           (\<forall>r c. 0 \<le> r \<and> r < n \<and> 0 \<le> c \<and> c < m \<longrightarrow>
              ent A' r c = (if c = 0 then vs ! nat r else ent A r c))"
proof -
  note D = shapedD[OF A]
  let ?xs = "map (\<lambda>(r, v). r[0 := v]) (zip (rows A) vs)"
  let ?A' = "NDArray (nat n) (nat m) ?xs"
  have eq: "setcol A 0 vs = Inr ?A'"
    using m vs D(3,4) by (simp add: setcol_def norm_index_ok)
  have nth: "?xs ! r = (rows A ! r)[0 := vs ! r]" if "r < nat n" for r
    using that vs D(5) by simp
  have sh: "shaped n m ?A'"
  proof (rule shapedI)
    show "length ?xs = nat n" using vs D(5) by simp
    show "length (?xs ! r) = nat m" if "r < nat n" for r
      using nth[OF that] D(6)[OF that] by simp
  qed (use D(1,2) in simp_all)
  have en: "ent ?A' r c = (if c = 0 then vs ! nat r else ent A r c)"
    if "0 \<le> r" "r < n" "0 \<le> c" "c < m" for r c
  proof -
    have r: "nat r < nat n" using that by linarith
    have "0 < length (rows A ! nat r)" using D(6)[OF r] m by simp
    then show ?thesis
      using nth[OF r] that by (auto simp: ent_def nth_list_update)
  qed
  show ?thesis using eq sh en by blast
qed

lemma setitem_error: "setitem A i j v = Inl e \<Longrightarrow> e = IndexError"
  by (auto simp: setitem_def bindE_Inl_iff dest: norm_index_error)

lemma getitem_error: "getitem A i j = Inl e \<Longrightarrow> e = IndexError"
  by (auto simp: getitem_def bindE_Inl_iff dest: norm_index_error)

lemma getitem1_error: "getitem1 xs i = Inl e \<Longrightarrow> e = IndexError"
  by (auto simp: getitem1_def bindE_Inl_iff dest: norm_index_error)

lemma setcol_error: "setcol A j vs = Inl e \<Longrightarrow> e = IndexError \<or> e = ValueError BroadcastShapes"
  by (auto simp: setcol_def bindE_Inl_iff split: if_splits dest: norm_index_error)

lemma zeros_error: "zeros n m = Inl e \<Longrightarrow> e = ValueError NegativeDimensions"
  by (auto simp: zeros_def split: if_splits)

lemma foldM_error:
  "foldM f xs s = Inl e \<Longrightarrow> \<exists>x s'. x \<in> set xs \<and> f x s' = Inl e"
proof (induction xs arbitrary: s)
  case Nil
  then show ?case by simp
next
  case (Cons a xs)
  then show ?case by (fastforce simp: bindE_Inl_iff)
qed

section \<open>The loops of the synthesizer\<close>

lemma inner_step_ok:
  assumes M: "shaped n m M" and Mc: "shaped n m Mc"
    and n: "n mod 2 = 1" and Rm: "Rm = n div 2 + 1"
    and k: "1 \<le> k" "k < m" and l: "1 \<le> l" "l \<le> n - Rm"
    and col0: "ent Mc (l + Rm - 1) 0 = exp (- of_int (l\<^sup>2))"
  shows "\<exists>M' Mc'. inner_step g Rm (delta m) k an l (M, Mc) = Inr (M', Mc') \<and>
           shaped n m M' \<and> shaped n m Mc' \<and>
           (\<forall>r c. 0 \<le> r \<and> r < n \<and> 0 \<le> c \<and> c < m \<longrightarrow>
              ent Mc' r c = (if c = k \<and> (r = Rm - 1 + l \<or> r = Rm - 1 - l) then val_spec k l
                             else ent Mc r c)) \<and>
           (\<forall>r c. 0 \<le> r \<and> r < n \<and> 0 \<le> c \<and> c < m \<longrightarrow>
              ent M' r c = (if c = k \<and> (r = Rm - 1 + l \<or> r = Rm - 1 - l)
                            then 2 * (val_spec k l + an * exp (- of_int (l\<^sup>2)) + series_spec g k l)
                            else ent M r c))"
proof -
  define val where "val = val_spec k l"
  define aux where "aux = (val + an * exp (- of_int (l\<^sup>2)) + series_spec g k l) * 2"
  have r1: "0 \<le> l - 1 + Rm" "l - 1 + Rm < n" and r2: "0 \<le> Rm - l - 1" "Rm - l - 1 < n"
    using n Rm l by linarith+
  have c: "0 \<le> k" "(0::int) < m" using k by linarith+
  obtain Mc1 where Mc1: "setitem Mc (l - 1 + Rm) k val = Inr Mc1" "shaped n m Mc1"
    and e1: "\<And>r c. 0 \<le> r \<Longrightarrow> r < n \<Longrightarrow> 0 \<le> c \<Longrightarrow> c < m \<Longrightarrow>
               ent Mc1 r c = (if r = l - 1 + Rm \<and> c = k then val else ent Mc r c)"
    using setitem_shaped[OF Mc r1 c(1) k(2), of val] by blast
  obtain Mc2 where Mc2: "setitem Mc1 (Rm - l - 1) k val = Inr Mc2" "shaped n m Mc2"
    and e2: "\<And>r c. 0 \<le> r \<Longrightarrow> r < n \<Longrightarrow> 0 \<le> c \<Longrightarrow> c < m \<Longrightarrow>
               ent Mc2 r c = (if r = Rm - l - 1 \<and> c = k then val else ent Mc1 r c)"
    using setitem_shaped[OF Mc1(2) r2 c(1) k(2), of val] by blast
  have r1': "0 \<le> l + Rm - 1" "l + Rm - 1 < n" using r1 by simp_all
  have "ent Mc2 (l + Rm - 1) 0 = ent Mc (l + Rm - 1) 0"
    using e2[OF r1' order_refl c(2)] e1[OF r1' order_refl c(2)] k(1) by simp
  then have g0: "getitem Mc2 (l + Rm - 1) 0 = Inr (exp (- of_int (l\<^sup>2)))"
    using getitem_shaped[OF Mc2(2) r1' order_refl c(2)] col0 by simp
  have gd: "getitem1 (delta m) k = Inr (Delta_spec k)"
    using getitem1_delta[OF c(1) k(2)] by (simp add: Delta_spec_def)
  obtain M1 where M1: "setitem M (l + Rm - 1) k aux = Inr M1" "shaped n m M1"
    and f1: "\<And>r c. 0 \<le> r \<Longrightarrow> r < n \<Longrightarrow> 0 \<le> c \<Longrightarrow> c < m \<Longrightarrow>
               ent M1 r c = (if r = l + Rm - 1 \<and> c = k then aux else ent M r c)"
    using setitem_shaped[OF M r1' c(1) k(2), of aux] by blast
  obtain M2 where M2: "setitem M1 (Rm - l - 1) k aux = Inr M2" "shaped n m M2"
    and f2: "\<And>r c. 0 \<le> r \<Longrightarrow> r < n \<Longrightarrow> 0 \<le> c \<Longrightarrow> c < m \<Longrightarrow>
               ent M2 r c = (if r = Rm - l - 1 \<and> c = k then aux else ent M1 r c)"
    using setitem_shaped[OF M1(2) r2 c(1) k(2), of aux] by blast
  have valeq: "exp (of_int (k * k - l * l) + 2 * of_int (k * k) * ln ((1.0 * of_int l) / of_int k)) = val"
    by (simp add: val_def val_spec_def power2_eq_square)
  have ser: "sum_list (map (series_term g k l)
               (arange (max 1 (l * l - Delta_spec k)) (min (k * k - 1) (l * l + Delta_spec k) + 1)))
             = series_spec g k l"
    by (simp only: sum_list_arange series_spec_def power2_eq_square series_term_eq)
  have step: "inner_step g Rm (delta m) k an l (M, Mc) = Inr (M2, Mc2)"
    unfolding inner_step_def prod.case Let_def valeq
    by (simp only: Mc1(1) Mc2(1) g0 gd bindE.simps ser M1(1)[unfolded aux_def] M2(1)[unfolded aux_def])
  have E: "ent Mc2 r c = (if c = k \<and> (r = Rm - 1 + l \<or> r = Rm - 1 - l) then val_spec k l
                             else ent Mc r c)" if "0 \<le> r" "r < n" "0 \<le> c" "c < m" for r c
    using e2[OF that] e1[OF that] by (auto simp: val_def)
  have F: "ent M2 r c = (if c = k \<and> (r = Rm - 1 + l \<or> r = Rm - 1 - l)
                            then 2 * (val_spec k l + an * exp (- of_int (l\<^sup>2)) + series_spec g k l)
                            else ent M r c)" if "0 \<le> r" "r < n" "0 \<le> c" "c < m" for r c
    using f2[OF that] f1[OF that] by (auto simp: aux_def val_def)
  show ?thesis
    using step M2(2) Mc2(2) E F by blast
qed

lemma writes_refl: "writes n m (\<lambda>r c. False) F A A"
  by (simp add: writes_def)

lemma writes_trans:
  "writes n m P F A A1 \<Longrightarrow> writes n m Q F A1 A2 \<Longrightarrow> writes n m (\<lambda>r c. P r c \<or> Q r c) F A A2"
  by (simp add: writes_def)

lemma writes_cong:
  assumes "writes n m P F A A'"
    and "\<And>r c. 0 \<le> r \<Longrightarrow> r < n \<Longrightarrow> 0 \<le> c \<Longrightarrow> c < m \<Longrightarrow> P r c = Q r c"
    and "\<And>r c. 0 \<le> r \<Longrightarrow> r < n \<Longrightarrow> 0 \<le> c \<Longrightarrow> c < m \<Longrightarrow> P r c \<Longrightarrow> F r c = G r c"
  shows "writes n m Q G A A'"
  using assms unfolding writes_def by metis

lemma inner_step_writes:
  assumes M: "shaped n m M" and Mc: "shaped n m Mc"
    and n: "n mod 2 = 1" and Rm: "Rm = n div 2 + 1"
    and k: "1 \<le> k" "k < m" and l: "1 \<le> l" "l \<le> n - Rm"
    and col0: "col0_ok n Rm Mc"
  shows "\<exists>M' Mc'. inner_step g Rm (delta m) k (angn_spec g k) l (M, Mc) = Inr (M', Mc') \<and>
           shaped n m M' \<and> shaped n m Mc' \<and> col0_ok n Rm Mc' \<and>
           writes n m (\<lambda>r c. c = k \<and> offset Rm r = l) (Mc_fun Rm) Mc Mc' \<and>
           writes n m (\<lambda>r c. c = k \<and> offset Rm r = l) (M_fun g Rm) M M'"
proof -
  have "0 \<le> l + Rm - 1 \<and> l + Rm - 1 < n" using n Rm l by linarith
  then have c0: "ent Mc (l + Rm - 1) 0 = exp (- of_int (l\<^sup>2))"
    using col0 by (simp add: col0_ok_def)
  obtain M' Mc' where
    step: "inner_step g Rm (delta m) k (angn_spec g k) l (M, Mc) = Inr (M', Mc')"
    and sh: "shaped n m M'" "shaped n m Mc'"
    and E: "\<forall>r c. 0 \<le> r \<and> r < n \<and> 0 \<le> c \<and> c < m \<longrightarrow>
              ent Mc' r c = (if c = k \<and> (r = Rm - 1 + l \<or> r = Rm - 1 - l) then val_spec k l
                             else ent Mc r c)"
    and F: "\<forall>r c. 0 \<le> r \<and> r < n \<and> 0 \<le> c \<and> c < m \<longrightarrow>
              ent M' r c = (if c = k \<and> (r = Rm - 1 + l \<or> r = Rm - 1 - l)
                            then 2 * (val_spec k l + angn_spec g k * exp (- of_int (l\<^sup>2)) + series_spec g k l)
                            else ent M r c)"
    using inner_step_ok[OF M Mc n Rm k l c0] by blast
  have off: "(r = Rm - 1 + l \<or> r = Rm - 1 - l) \<longleftrightarrow> offset Rm r = l" for r
    using l(1) by (auto simp: offset_def)
  have m0: "(0::int) < m" using k by linarith
  have "col0_ok n Rm Mc'"
    unfolding col0_ok_def
  proof (intro allI impI)
    fix r assume r: "0 \<le> r \<and> r < n"
    then have "ent Mc' r 0 = ent Mc r 0" using E m0 k(1) by simp
    then show "ent Mc' r 0 = exp (- of_int ((r + 1 - Rm)\<^sup>2))"
      using col0 r by (simp add: col0_ok_def)
  qed
  moreover have "writes n m (\<lambda>r c. c = k \<and> offset Rm r = l) (Mc_fun Rm) Mc Mc'"
    unfolding writes_def using E by (simp add: off Mc_fun_def)
  moreover have "writes n m (\<lambda>r c. c = k \<and> offset Rm r = l) (M_fun g Rm) M M'"
    unfolding writes_def using F l(1) by (auto simp: off M_fun_def M_entry_spec_def offset_def)
  ultimately show ?thesis using step sh by blast
qed

lemma inner_loop_writes:
  assumes n: "n mod 2 = 1" and Rm: "Rm = n div 2 + 1"
    and k: "1 \<le> k" "k < m" and ls: "\<forall>l\<in>set ls. 1 \<le> l \<and> l \<le> n - Rm"
    and M: "shaped n m M" and Mc: "shaped n m Mc" and col0: "col0_ok n Rm Mc"
  shows "\<exists>M' Mc'. foldM (inner_step g Rm (delta m) k (angn_spec g k)) ls (M, Mc) = Inr (M', Mc') \<and>
           shaped n m M' \<and> shaped n m Mc' \<and> col0_ok n Rm Mc' \<and>
           writes n m (\<lambda>r c. c = k \<and> offset Rm r \<in> set ls) (Mc_fun Rm) Mc Mc' \<and>
           writes n m (\<lambda>r c. c = k \<and> offset Rm r \<in> set ls) (M_fun g Rm) M M'"
  using ls M Mc col0
proof (induction ls arbitrary: M Mc)
  case Nil
  then show ?case by (simp add: writes_refl)
next
  case (Cons l ls)
  have l: "1 \<le> l" "l \<le> n - Rm" using Cons.prems(1) by simp_all
  obtain M1 Mc1 where
    s1: "inner_step g Rm (delta m) k (angn_spec g k) l (M, Mc) = Inr (M1, Mc1)"
    and sh1: "shaped n m M1" "shaped n m Mc1" "col0_ok n Rm Mc1"
    and w1: "writes n m (\<lambda>r c. c = k \<and> offset Rm r = l) (Mc_fun Rm) Mc Mc1"
            "writes n m (\<lambda>r c. c = k \<and> offset Rm r = l) (M_fun g Rm) M M1"
    using inner_step_writes[OF Cons.prems(2,3) n Rm k l Cons.prems(4)] by blast
  have "\<forall>l\<in>set ls. 1 \<le> l \<and> l \<le> n - Rm" using Cons.prems(1) by simp
  from Cons.IH[OF this sh1] obtain M2 Mc2 where
    s2: "foldM (inner_step g Rm (delta m) k (angn_spec g k)) ls (M1, Mc1) = Inr (M2, Mc2)"
    and sh2: "shaped n m M2" "shaped n m Mc2" "col0_ok n Rm Mc2"
    and w2: "writes n m (\<lambda>r c. c = k \<and> offset Rm r \<in> set ls) (Mc_fun Rm) Mc1 Mc2"
            "writes n m (\<lambda>r c. c = k \<and> offset Rm r \<in> set ls) (M_fun g Rm) M1 M2"
    by blast
  have "foldM (inner_step g Rm (delta m) k (angn_spec g k)) (l # ls) (M, Mc) = Inr (M2, Mc2)"
    by (simp add: s1 s2)
  moreover have "writes n m (\<lambda>r c. c = k \<and> offset Rm r \<in> set (l # ls)) (Mc_fun Rm) Mc Mc2"
    by (rule writes_cong[OF writes_trans[OF w1(1) w2(1)]]) auto
  moreover have "writes n m (\<lambda>r c. c = k \<and> offset Rm r \<in> set (l # ls)) (M_fun g Rm) M M2"
    by (rule writes_cong[OF writes_trans[OF w1(2) w2(2)]]) auto
  ultimately show ?case using sh2 by blast
qed

lemma outer_step_writes:
  assumes n: "n mod 2 = 1" and Rm: "Rm = n div 2 + 1"
    and k: "1 \<le> k" "k < m"
    and M: "shaped n m M" and Mc: "shaped n m Mc" and col0: "col0_ok n Rm Mc"
  shows "\<exists>M' Mc'. outer_step g n Rm (delta m) k (M, Mc) = Inr (M', Mc') \<and>
           shaped n m M' \<and> shaped n m Mc' \<and> col0_ok n Rm Mc' \<and>
           writes n m (\<lambda>r c. c = k \<and> r \<noteq> Rm - 1) (Mc_fun Rm) Mc Mc' \<and>
           writes n m (\<lambda>r c. c = k) (M_fun g Rm) M M'"
proof -
  have n0: "0 \<le> n" using shapedD(1)[OF M] .
  have nn: "n = 2 * (n div 2) + 1" using n by presburger
  have r0: "0 \<le> Rm - 1" "Rm - 1 < n" using nn n0 Rm by linarith+
  have c: "0 \<le> k" using k by linarith
  obtain M0 where M0: "setitem M (Rm - 1) k (2 * angn_spec g k) = Inr M0" "shaped n m M0"
    and e0: "\<forall>r c. 0 \<le> r \<and> r < n \<and> 0 \<le> c \<and> c < m \<longrightarrow>
               ent M0 r c = (if r = Rm - 1 \<and> c = k then 2 * angn_spec g k else ent M r c)"
    using setitem_shaped[OF M r0 c k(2), of "2 * angn_spec g k"] by blast
  have w0: "writes n m (\<lambda>r c. c = k \<and> r = Rm - 1) (M_fun g Rm) M M0"
    unfolding writes_def using e0 by (auto simp: M_fun_def)
  have ls: "\<forall>l\<in>set (arange 1 (n - Rm + 1)). 1 \<le> l \<and> l \<le> n - Rm"
    by (simp add: arange_def)
  obtain M' Mc' where
    loop: "foldM (inner_step g Rm (delta m) k (angn_spec g k)) (arange 1 (n - Rm + 1)) (M0, Mc)
             = Inr (M', Mc')"
    and sh: "shaped n m M'" "shaped n m Mc'" "col0_ok n Rm Mc'"
    and w: "writes n m (\<lambda>r c. c = k \<and> offset Rm r \<in> set (arange 1 (n - Rm + 1))) (Mc_fun Rm) Mc Mc'"
           "writes n m (\<lambda>r c. c = k \<and> offset Rm r \<in> set (arange 1 (n - Rm + 1))) (M_fun g Rm) M0 M'"
    using inner_loop_writes[OF n Rm k ls M0(2) Mc col0] by blast
  have off: "offset Rm r \<in> set (arange 1 (n - Rm + 1)) \<longleftrightarrow> r \<noteq> Rm - 1"
    if "0 \<le> r" "r < n" for r
    using that nn Rm by (auto simp: arange_def offset_def)
  have step: "outer_step g n Rm (delta m) k (M, Mc) = Inr (M', Mc')"
    by (simp add: outer_step_def angn_eq M0(1) loop)
  have "writes n m (\<lambda>r c. c = k \<and> r \<noteq> Rm - 1) (Mc_fun Rm) Mc Mc'"
    by (rule writes_cong[OF w(1)]) (simp_all add: off)
  moreover have "writes n m (\<lambda>r c. c = k) (M_fun g Rm) M M'"
    by (rule writes_cong[OF writes_trans[OF w0 w(2)]]) (auto simp: off)
  ultimately show ?thesis using step sh by blast
qed

lemma outer_loop_writes:
  assumes n: "n mod 2 = 1" and Rm: "Rm = n div 2 + 1"
    and ks: "\<forall>k\<in>set ks. 1 \<le> k \<and> k < m"
    and M: "shaped n m M" and Mc: "shaped n m Mc" and col0: "col0_ok n Rm Mc"
  shows "\<exists>M' Mc'. foldM (outer_step g n Rm (delta m)) ks (M, Mc) = Inr (M', Mc') \<and>
           shaped n m M' \<and> shaped n m Mc' \<and> col0_ok n Rm Mc' \<and>
           writes n m (\<lambda>r c. c \<in> set ks \<and> r \<noteq> Rm - 1) (Mc_fun Rm) Mc Mc' \<and>
           writes n m (\<lambda>r c. c \<in> set ks) (M_fun g Rm) M M'"
  using ks M Mc col0
proof (induction ks arbitrary: M Mc)
  case Nil
  then show ?case by (simp add: writes_refl)
next
  case (Cons k ks)
  have k: "1 \<le> k" "k < m" using Cons.prems(1) by simp_all
  obtain M1 Mc1 where
    s1: "outer_step g n Rm (delta m) k (M, Mc) = Inr (M1, Mc1)"
    and sh1: "shaped n m M1" "shaped n m Mc1" "col0_ok n Rm Mc1"
    and w1: "writes n m (\<lambda>r c. c = k \<and> r \<noteq> Rm - 1) (Mc_fun Rm) Mc Mc1"
            "writes n m (\<lambda>r c. c = k) (M_fun g Rm) M M1"
    using outer_step_writes[OF n Rm k Cons.prems(2,3,4)] by blast
  have "\<forall>k\<in>set ks. 1 \<le> k \<and> k < m" using Cons.prems(1) by simp
  from Cons.IH[OF this sh1] obtain M2 Mc2 where
    s2: "foldM (outer_step g n Rm (delta m)) ks (M1, Mc1) = Inr (M2, Mc2)"
    and sh2: "shaped n m M2" "shaped n m Mc2" "col0_ok n Rm Mc2"
    and w2: "writes n m (\<lambda>r c. c \<in> set ks \<and> r \<noteq> Rm - 1) (Mc_fun Rm) Mc1 Mc2"
            "writes n m (\<lambda>r c. c \<in> set ks) (M_fun g Rm) M1 M2"
    by blast
  have "foldM (outer_step g n Rm (delta m)) (k # ks) (M, Mc) = Inr (M2, Mc2)"
    by (simp add: s1 s2)
  moreover have "writes n m (\<lambda>r c. c \<in> set (k # ks) \<and> r \<noteq> Rm - 1) (Mc_fun Rm) Mc Mc2"
    by (rule writes_cong[OF writes_trans[OF w1(1) w2(1)]]) auto
  moreover have "writes n m (\<lambda>r c. c \<in> set (k # ks)) (M_fun g Rm) M M2"
    by (rule writes_cong[OF writes_trans[OF w1(2) w2(2)]]) auto
  ultimately show ?case using sh2 by blast
qed

lemma generate_basis_sets_ok:
  assumes n: "n mod 2 = 1" and nbf: "nbf = nbf_default n nbf0"
    and valid: "1 \<le> nbf" "nbf \<le> n div 2" and Rm: "Rm = n div 2 + 1"
  shows "\<exists>M Mc.
           generate_basis_sets g n nbf0 verbose =
             (if verbose \<and> nbf \<le> 1 then Inl UnboundLocalError else Inr (M, Mc)) \<and>
           shaped n nbf M \<and> shaped n nbf Mc \<and>
           (\<forall>r c. 0 \<le> r \<and> r < n \<and> 0 \<le> c \<and> c < nbf \<longrightarrow>
              ent M r c = (if c = 0 then 2 * exp (- of_int ((r + 1 - Rm)\<^sup>2)) else M_fun g Rm r c)) \<and>
           (\<forall>r c. 0 \<le> r \<and> r < n \<and> 0 \<le> c \<and> c < nbf \<longrightarrow>
              ent Mc r c = (if c = 0 then exp (- of_int ((r + 1 - Rm)\<^sup>2))
                            else if r = Rm - 1 then 0 else Mc_fun Rm r c))"
proof -
  have n0: "0 \<le> n" and m0: "0 \<le> nbf" "0 < nbf" using valid by linarith+
  define R2 where "R2 = map (\<lambda>i. (i - Rm) ^ 2) (arange 1 (n + 1))"
  define vM where "vM = map (\<lambda>r. 2 * exp (- real_of_int r)) R2"
  define vMc where "vMc = map (\<lambda>r. exp (- real_of_int r)) R2"
  have len: "length vM = nat n" "length vMc = nat n"
    using n0 by (simp_all add: vM_def vMc_def R2_def arange_def)
  have R2nth: "R2 ! nat r = (r + 1 - Rm)\<^sup>2" if "0 \<le> r" "r < n" for r
    using that by (simp add: R2_def arange_def algebra_simps)
  have vnth: "vM ! nat r = 2 * exp (- of_int ((r + 1 - Rm)\<^sup>2))"
             "vMc ! nat r = exp (- of_int ((r + 1 - Rm)\<^sup>2))" if "0 \<le> r" "r < n" for r
    using that R2nth[OF that] n0 by (simp_all add: vM_def vMc_def R2_def arange_def)
  obtain Z where Z: "zeros n nbf = Inr Z" "shaped n nbf Z"
    and eZ: "\<forall>r c. 0 \<le> r \<and> r < n \<and> 0 \<le> c \<and> c < nbf \<longrightarrow> ent Z r c = 0"
    using zeros_shaped[OF n0 m0(1)] by blast
  obtain M0 where M0: "setcol Z 0 vM = Inr M0" "shaped n nbf M0"
    and eM0: "\<forall>r c. 0 \<le> r \<and> r < n \<and> 0 \<le> c \<and> c < nbf \<longrightarrow>
                ent M0 r c = (if c = 0 then vM ! nat r else ent Z r c)"
    using setcol_shaped[OF Z(2) m0(2) len(1)] by blast
  obtain Mc0 where Mc0: "setcol Z 0 vMc = Inr Mc0" "shaped n nbf Mc0"
    and eMc0: "\<forall>r c. 0 \<le> r \<and> r < n \<and> 0 \<le> c \<and> c < nbf \<longrightarrow>
                ent Mc0 r c = (if c = 0 then vMc ! nat r else ent Z r c)"
    using setcol_shaped[OF Z(2) m0(2) len(2)] by blast
  have col0: "col0_ok n Rm Mc0"
    unfolding col0_ok_def using eMc0 m0(2) vnth(2) by simp
  have ks: "\<forall>k\<in>set (arange 1 nbf). 1 \<le> k \<and> k < nbf"
    by (simp add: arange_def)
  obtain M Mc where
    loop: "foldM (outer_step g n Rm (delta nbf)) (arange 1 nbf) (M0, Mc0) = Inr (M, Mc)"
    and sh: "shaped n nbf M" "shaped n nbf Mc"
    and w: "writes n nbf (\<lambda>r c. c \<in> set (arange 1 nbf) \<and> r \<noteq> Rm - 1) (Mc_fun Rm) Mc0 Mc"
           "writes n nbf (\<lambda>r c. c \<in> set (arange 1 nbf)) (M_fun g Rm) M0 M"
    using outer_loop_writes[OF n Rm ks M0(2) Mc0(2) col0] by blast
  have gen: "generate_basis_sets g n nbf0 verbose =
               (if verbose \<and> nbf \<le> 1 then Inl UnboundLocalError else Inr (M, Mc))"
    unfolding generate_basis_sets_def Let_def nbf[symmetric] Rm[symmetric]
      R2_def[symmetric] vM_def[symmetric] vMc_def[symmetric]
    using n valid(2) by (simp add: Z(1) M0(1) Mc0(1) loop)
  have cs: "c \<in> set (arange 1 nbf) \<longleftrightarrow> c \<noteq> 0" if "0 \<le> c" "c < nbf" for c
    using that by (auto simp: arange_def)
  have eM: "ent M r c = (if c = 0 then 2 * exp (- of_int ((r + 1 - Rm)\<^sup>2)) else M_fun g Rm r c)"
    if "0 \<le> r \<and> r < n \<and> 0 \<le> c \<and> c < nbf" for r c
    using w(2) eM0 eZ that vnth(1)[of r] cs[of c] by (simp add: writes_def)
  have eMc: "ent Mc r c = (if c = 0 then exp (- of_int ((r + 1 - Rm)\<^sup>2))
                            else if r = Rm - 1 then 0 else Mc_fun Rm r c)"
    if "0 \<le> r \<and> r < n \<and> 0 \<le> c \<and> c < nbf" for r c
    using w(1) eMc0 eZ that vnth(2)[of r] cs[of c] by (simp add: writes_def)
  show ?thesis using gen sh eM eMc by blast
qed

lemma inner_step_error: "inner_step g Rm dl k an l MMc = Inl e \<Longrightarrow> e = IndexError"
  by (cases MMc)
     (auto simp: inner_step_def Let_def bindE_Inl_iff
           dest: setitem_error getitem_error getitem1_error)

lemma outer_step_error: "outer_step g n Rm dl k MMc = Inl e \<Longrightarrow> e = IndexError"
  by (cases MMc)
     (auto simp: outer_step_def Let_def bindE_Inl_iff
           dest: setitem_error foldM_error inner_step_error)

lemma generate_basis_sets_error:
  "generate_basis_sets g n nbf verbose = Inl e \<Longrightarrow>
     e \<in> {ValueError OddSize, ValueError TooManyBasis, ValueError NegativeDimensions,
          ValueError BroadcastShapes, IndexError, UnboundLocalError}"
  by (auto simp: generate_basis_sets_def Let_def bindE_Inl_iff split: if_splits
           dest!: zeros_error setcol_error foldM_error outer_step_error)

lemma generate_basis_sets_odd_error:
  assumes "n mod 2 \<noteq> 0" "nbf_default n nbf \<le> n div 2"
    and "generate_basis_sets g n nbf verbose = Inl e"
  shows "e \<in> {ValueError NegativeDimensions, ValueError BroadcastShapes, IndexError,
              UnboundLocalError}"
  using assms
  by (auto simp: generate_basis_sets_def Let_def bindE_Inl_iff split: if_splits
           dest!: zeros_error setcol_error foldM_error outer_step_error)

section \<open>Linear algebra, the operator builder and the transform\<close>

lemma shape_matmul [simp]: "nrows (matmul A B) = nrows A" "ncols (matmul A B) = ncols B"
  by (simp_all add: matmul_def)

lemma shape_T [simp]: "nrows (T A) = ncols A" "ncols (T A) = nrows A"
  by (simp_all add: T_def)

lemma shape_scale [simp]: "nrows (scale A q) = nrows A" "ncols (scale A q) = ncols A"
  by (simp_all add: scale_def)

lemma shape_identity [simp]: "nrows (identity n) = n" "ncols (identity n) = n"
  by (simp_all add: identity_def)

lemma shape_mat_add [simp]: "nrows (mat_add A B) = nrows A" "ncols (mat_add A B) = ncols A"
  by (simp_all add: mat_add_def)

lemma wf_matmul: "wf_array (matmul A B)"
  by (simp add: wf_array_def matmul_def list_all_iff)

lemma wf_T: "wf_array (T A)"
  by (simp add: wf_array_def T_def list_all_iff)

lemma array_of_sel [simp]:
  "nrows (array_of n m f) = n" "ncols (array_of n m f) = m"
  by (simp_all add: array_of_def)

lemma mat_of_array: "i < n \<Longrightarrow> j < m \<Longrightarrow> mat_of (array_of n m f) i j = f i j"
  by (simp add: mat_of_def array_of_def)

lemma array_of_cong:
  assumes "\<And>i j. i < n \<Longrightarrow> j < m \<Longrightarrow> f i j = g i j"
  shows "array_of n m f = array_of n m g"
  using assms by (simp add: array_of_def)

lemma product_spec_cong:
  assumes "\<And>k. k < m \<Longrightarrow> f i k = f' i k" "\<And>k. k < m \<Longrightarrow> g k j = g' k j"
  shows "product_spec m f g i j = product_spec m f' g' i j"
  using assms by (simp add: product_spec_def)

lemma sum_list_upt: "sum_list (map f [0..<m]) = (\<Sum>k<m. f k)"
  by (simp add: interv_sum_list_conv_sum_set_nat atLeast0LessThan)

text \<open>Each array operation of the program, as the array of its entries.\<close>

lemma matmul_array:
  "matmul A B = array_of (nrows A) (ncols B) (product_spec (ncols A) (mat_of A) (mat_of B))"
  by (simp add: matmul_def array_of_def product_spec_def mat_of_def sum_list_upt)

lemma T_array: "T A = array_of (ncols A) (nrows A) (transpose_spec (mat_of A))"
  by (simp add: T_def array_of_def mat_of_def transpose_spec_def)

lemma identity_array: "identity n = array_of n n (\<lambda>i j. if i = j then 1 else 0)"
  by (simp add: identity_def array_of_def)

lemma scale_array: "scale (array_of n m f) q = array_of n m (\<lambda>i j. f i j * q)"
  by (simp add: scale_def array_of_def)

lemma mat_add_array:
  "mat_add (array_of n m f) (array_of n m g) = array_of n m (\<lambda>i j. f i j + g i j)"
  by (simp add: mat_add_def array_of_def list_eq_iff_nth_eq)

lemma matmul_array_array:
  "matmul (array_of n m f) (array_of m p g) = array_of n p (product_spec m f g)"
  unfolding matmul_array array_of_sel
  by (rule array_of_cong, rule product_spec_cong) (simp_all add: mat_of_array)

lemma matmul_array_left:
  "ncols B = m \<Longrightarrow> matmul B (array_of m p g) = array_of (nrows B) p (product_spec m (mat_of B) g)"
  unfolding matmul_array array_of_sel
  by (rule array_of_cong, simp, rule product_spec_cong) (simp_all add: mat_of_array)

lemma matmul_array_right:
  "matmul (array_of n m f) B = array_of n (ncols B) (product_spec m f (mat_of B))"
  unfolding matmul_array array_of_sel
  by (rule array_of_cong, rule product_spec_cong) (simp_all add: mat_of_array)

lemma gram_array:
  "matmul (T A) A =
     array_of (ncols A) (ncols A) (product_spec (nrows A) (transpose_spec (mat_of A)) (mat_of A))"
  by (simp add: T_array matmul_array_right)

lemma regularised_gram_array:
  "mat_add (matmul (T A) A) (scale (identity (ncols A)) q) =
     array_of (ncols A) (ncols A)
       (\<lambda>a b. product_spec (nrows A) (transpose_spec (mat_of A)) (mat_of A) a b
              + q * (if a = b then 1 else 0))"
  by (simp add: gram_array identity_array scale_array mat_add_array mult.commute)

lemma transform_product:
  assumes "nrows X = n" "ncols X = n" and "nrows L = nbf" "ncols L = n"
    and "nrows R = n" "ncols R = nbf" and "nrows Mc = n" "ncols Mc = nbf"
  shows "matmul (matmul Mc (matmul (matmul L X) R)) (T Mc) =
           array_of n n
             (product_spec nbf
                (product_spec nbf (mat_of Mc)
                   (product_spec n (product_spec n (mat_of L) (mat_of X)) (mat_of R)))
                (transpose_spec (mat_of Mc)))"
proof -
  have 1: "matmul L X = array_of nbf n (product_spec n (mat_of L) (mat_of X))"
    using assms by (simp add: matmul_array)
  have 2: "matmul (matmul L X) R =
             array_of nbf nbf (product_spec n (product_spec n (mat_of L) (mat_of X)) (mat_of R))"
    using assms by (simp add: 1 matmul_array_right)
  have 3: "matmul Mc (matmul (matmul L X) R) =
             array_of n nbf (product_spec nbf (mat_of Mc)
               (product_spec n (product_spec n (mat_of L) (mat_of X)) (mat_of R)))"
    using assms by (simp add: 2 matmul_array_left)
  have 4: "T Mc = array_of nbf n (transpose_spec (mat_of Mc))"
    using assms by (simp add: T_array)
  show ?thesis
    by (simp only: 3 4 matmul_array_array)
qed

lemma dot_error: "dot A B = Inl e \<Longrightarrow> e = ValueError ShapesNotAligned"
  by (simp add: dot_def split: if_splits)

lemma add_error: "add A B = Inl e \<Longrightarrow> e = ValueError BroadcastShapes"
  by (simp add: add_def split: if_splits)

lemma inv_call_error: "inv_call f A = Inl e \<Longrightarrow> e = LinAlgError"
  by (simp add: inv_call_def split: option.splits)

lemma get_left_right_matrices_error:
  "get_left_right_matrices f M Mc = Inl e \<Longrightarrow>
     e \<in> {ValueError ShapesNotAligned, ValueError BroadcastShapes, LinAlgError}"
  by (auto simp: get_left_right_matrices_def Let_def bindE_Inl_iff
           dest!: dot_error add_error inv_call_error)

lemma get_left_right_matrices_ok:
  assumes inv_shape: "\<forall>A B. np_inv A = Some B \<longrightarrow> nrows B = nrows A \<and> ncols B = ncols A"
  shows "get_left_right_matrices np_inv M Mc =
           (case OpLeft_spec np_inv Mc of
              None \<Rightarrow> Inl LinAlgError
            | Some OpLeft \<Rightarrow>
                (case OpRight_spec np_inv M 1 of
                   None \<Rightarrow> Inl LinAlgError
                 | Some OpRight \<Rightarrow> Inr (OpLeft, OpRight)))"
proof -
  define G where "G = array_of (ncols Mc) (ncols Mc)
    (product_spec (nrows Mc) (transpose_spec (mat_of Mc)) (mat_of Mc))"
  define H where "H = array_of (ncols M) (ncols M)
    (\<lambda>a b. product_spec (nrows M) (transpose_spec (mat_of M)) (mat_of M) a b
           + 1 * (if a = b then 1 else 0))"
  have G: "matmul (T Mc) Mc = G"
    by (simp add: G_def gram_array)
  have H: "mat_add (matmul (T M) M) (scale (identity (ncols M)) 1) = H"
    unfolding H_def by (rule regularised_gram_array)
  have left: "matmul Gi (T Mc) =
      array_of (ncols Mc) (nrows Mc) (product_spec (ncols Mc) (mat_of Gi) (transpose_spec (mat_of Mc)))"
    if "np_inv G = Some Gi" for Gi
  proof -
    have "nrows Gi = ncols Mc" "ncols Gi = ncols Mc"
      using inv_shape that by (fastforce simp: G_def)+
    then show ?thesis by (simp add: T_array matmul_array_left)
  qed
  have right: "matmul M Hi =
      array_of (nrows M) (ncols M) (product_spec (ncols M) (mat_of M) (mat_of Hi))"
    if "np_inv H = Some Hi" for Hi
  proof -
    have "ncols Hi = ncols M"
      using inv_shape that by (fastforce simp: H_def)
    then show ?thesis by (simp add: matmul_array)
  qed
  have sl: "OpLeft_spec np_inv Mc =
      map_option (\<lambda>Gi. array_of (ncols Mc) (nrows Mc)
        (product_spec (ncols Mc) (mat_of Gi) (transpose_spec (mat_of Mc)))) (np_inv G)"
    by (simp add: OpLeft_spec_def Let_def G_def)
  have sr: "OpRight_spec np_inv M 1 =
      map_option (\<lambda>Hi. array_of (nrows M) (ncols M)
        (product_spec (ncols M) (mat_of M) (mat_of Hi))) (np_inv H)"
    by (simp add: OpRight_spec_def Let_def H_def)
  show ?thesis
  proof (cases "np_inv G")
    case None
    then show ?thesis
      by (simp add: get_left_right_matrices_def Let_def dot_def inv_call_def G sl)
  next
    case Gi: (Some Gi)
    have cG: "ncols Gi = ncols Mc"
      using inv_shape Gi by (fastforce simp: G_def)
    show ?thesis
    proof (cases "np_inv H")
      case None
      then show ?thesis
        using Gi cG
        by (simp add: get_left_right_matrices_def Let_def dot_def add_def inv_call_def G H sl sr)
    next
      case Hi: (Some Hi)
      have rH: "nrows Hi = ncols M"
        using inv_shape Hi by (fastforce simp: H_def)
      show ?thesis
        using Gi Hi cG rH left[OF Gi] right[OF Hi]
        by (simp add: get_left_right_matrices_def Let_def dot_def add_def inv_call_def G H sl sr)
    qed
  qed
qed

lemma inv_ref_shape: "inv_ref A = Some B \<Longrightarrow> nrows B = nrows A \<and> ncols B = ncols A"
  by (auto simp: inv_ref_def split: list.splits if_splits)

lemma inv2_ref_shape: "inv2_ref A = Some B \<Longrightarrow> nrows B = nrows A \<and> ncols B = ncols A"
  by (auto simp: inv2_ref_def split: list.splits if_splits)

lemma basex_transform_ok:
  assumes "nrows X = n" "ncols X = n" and "nrows L = nbf" "ncols L = n"
    and "nrows R = n" "ncols R = nbf" and "nrows Mc = n" "ncols Mc = nbf"
    and "value_of dr \<noteq> 0"
  shows "basex_transform X M Mc L R dr = Inr (Finite (transform_spec n nbf X Mc L R (value_of dr)))"
proof -
  have q: "true_divide MAGIC_NUMBER dr = Inr (Quotient (8.053 / value_of dr))"
    using assms(9) by (cases dr) (simp_all add: true_divide_def MAGIC_NUMBER_def)
  have "scale (matmul (matmul Mc (matmul (matmul L X) R)) (T Mc)) (8.053 / value_of dr)
          = transform_spec n nbf X Mc L R (value_of dr)"
    unfolding transform_product[OF assms(1-8)] scale_array transform_spec_def
    by (rule array_of_cong) (simp add: mult.commute)
  then show ?thesis
    using assms(1-8) by (simp add: basex_transform_def dot_def q imul_def)
qed

lemma basex_transform_zero_dr:
  assumes "nrows X = n" "ncols X = n" and "nrows L = nbf" "ncols L = n"
    and "nrows R = n" "ncols R = nbf" and "nrows Mc = n" "ncols Mc = nbf"
  shows "basex_transform X M Mc L R (PyNumber 0) = Inl ZeroDivisionError"
    and "basex_transform X M Mc L R (NpScalar 0) = Inr NonFinite"
  using assms by (simp_all add: basex_transform_def dot_def true_divide_def imul_def)

lemma basex_transform_shape_error:
  assumes "ncols M_left = n" "nrows M_right = n" "nrows X \<noteq> n \<or> ncols X \<noteq> n"
  shows "basex_transform X M Mc M_left M_right dr = Inl (ValueError ShapesNotAligned)"
  using assms by (auto simp: basex_transform_def dot_def)

lemma legacy_basex_transform_ok:
  assumes "nrows X = n" "ncols X = n" and "nrows L = nbf" "ncols L = n"
    and "nrows R = n" "ncols R = nbf" and "nrows Mc = n" "ncols Mc = nbf"
  shows "legacy_basex_transform X L R Mc =
           Inr (array_of n n
             (product_spec nbf
                (product_spec nbf (mat_of Mc)
                   (product_spec n (product_spec n (mat_of L) (mat_of X)) (mat_of R)))
                (transpose_spec (mat_of Mc))))"
  using assms transform_product[OF assms]
  by (simp add: legacy_basex_transform_def dot_def)

section \<open>The loader and the cache\<close>

lemma load_current_error:
  "load_current f = Inl e \<Longrightarrow>
     e = ValueError Unpack \<or> (e = ValueError LoadValue \<and> f = Unloadable LoadValueError)
       \<or> (e = OSError \<and> f = Unloadable LoadOtherError)"
  by (auto simp: load_current_def np_load_def unpack5_def bindE_Inl_iff
           split: stored.splits load_failure.splits list.splits)

lemma load_legacy_error:
  "load_legacy f = Inl e \<Longrightarrow>
     e = ValueError Unpack \<or> (e = ValueError LoadValue \<and> f = Unloadable LoadValueError)
       \<or> (e = OSError \<and> f = Unloadable LoadOtherError)"
  by (auto simp: load_legacy_def np_load_def unpack4_def bindE_Inl_iff
           split: stored.splits load_failure.splits list.splits)

lemma load_legacy_Unloadable:
  "load_legacy (Unloadable LoadOtherError) = Inl OSError"
  "load_legacy (Unloadable LoadValueError) = Inl (ValueError LoadValue)"
  by (simp_all add: load_legacy_def np_load_def)

lemma load_basis_file_unfold:
  "load_basis_file f =
     (case load_current f of
        Inr b \<Rightarrow> Inr b
      | Inl (ValueError v) \<Rightarrow> load_legacy f
      | Inl e \<Rightarrow> Inl e)"
  by (simp add: load_basis_file_def load_basis_file_with_def)

lemma load_basis_file_with_ValueError:
  "load_current f = Inl (ValueError v) \<Longrightarrow> load_basis_file_with second_load f = second_load f"
  by (simp add: load_basis_file_with_def)

lemma load_basis_file_with_other:
  "load_current f = Inl e \<Longrightarrow> \<forall>v. e \<noteq> ValueError v \<Longrightarrow> load_basis_file_with second_load f = Inl e"
  by (cases e) (simp_all add: load_basis_file_with_def)

lemma load_basis_file_fallback:
  assumes "load_current f = Inl e"
  shows "load_basis_file f = load_legacy f"
  using load_current_error[OF assms] assms
  by (auto simp: load_basis_file_unfold load_legacy_Unloadable)

lemma load_basis_file_error:
  "load_basis_file f = Inl e \<Longrightarrow> e \<in> {ValueError Unpack, ValueError LoadValue, OSError}"
  by (auto simp: load_basis_file_unfold split: sum.splits error.splits
           dest: load_current_error load_legacy_error)

lemma load_current_five: "load_current (Sequence [M, Mc, L, R, V]) = Inr (M, Mc, L, R)"
  by (simp add: load_current_def np_load_def unpack5_def)

lemma load_legacy_four: "load_legacy (Sequence [L, R, M, Mc]) = Inr (M, Mc, L, R)"
  by (simp add: load_legacy_def np_load_def unpack4_def)

lemma load_current_four: "load_current (Sequence [L, R, M, Mc]) = Inl (ValueError Unpack)"
  by (simp add: load_current_def np_load_def unpack5_def)

lemma try_load_Some:
  "try_load (Some d) name w =
     (case files w (path_join d name) of
        None \<Rightarrow> Inr None
      | Some f \<Rightarrow> bindE (load_basis_file f) (\<lambda>b. Inr (Some b)))"
  by (simp add: try_load_def)

lemma try_load_error:
  "try_load dir name w = Inl e \<Longrightarrow> e \<in> {ValueError Unpack, ValueError LoadValue, OSError}"
  by (auto simp: try_load_def bindE_Inl_iff split: option.splits dest: load_basis_file_error)

lemma cached_hit:
  assumes "files w (path_join d (basis_name n (nbf_default n nbf0))) = Some f"
    and "load_basis_file f = Inr (M, Mc, L, R)" and "M \<noteq> NoneObj"
  shows "get_basis_sets_cached ext n nbf0 (Some d) verbose w = (Inr (M, Mc, L, R), w)"
  using assms by (simp add: get_basis_sets_cached_def Let_def try_load_Some)

lemma cached_load_error:
  assumes "files w (path_join d (basis_name n (nbf_default n nbf0))) = Some f"
    and "load_basis_file f = Inl e"
  shows "get_basis_sets_cached ext n nbf0 (Some d) verbose w = (Inl e, w)"
  using assms by (simp add: get_basis_sets_cached_def Let_def try_load_Some)

lemma synthesize_and_save_Inr:
  assumes "synthesize_and_save ext n nbf (Some d) name verbose w = (Inr r, w1)"
  shows "\<exists>M Mc L R. r = (Arr M, Arr Mc, Arr L, Arr R) \<and>
           w1 = w\<lparr>synth_log := synth_log w @ [(n, nbf)],
                  files := (files w)(path_join d name \<mapsto>
                     Sequence [Arr M, Arr Mc, Arr L, Arr R, Str (version_of ext)])\<rparr>"
  using assms
  by (auto simp: synthesize_and_save_def Let_def np_save_def
           split: sum.splits prod.splits if_splits)

lemma cached_cases:
  "get_basis_sets_cached ext n nbf0 (Some d) verbose w =
     (let nbf = nbf_default n nbf0; name = basis_name n nbf
      in case files w (path_join d name) of
           None \<Rightarrow> synthesize_and_save ext n nbf (Some d) name verbose w
         | Some f \<Rightarrow>
             (case load_basis_file f of
                Inl e \<Rightarrow> (Inl e, w)
              | Inr (M, Mc, L, R) \<Rightarrow>
                  if M = NoneObj then synthesize_and_save ext n nbf (Some d) name verbose w
                  else (Inr (M, Mc, L, R), w)))"
  by (simp add: get_basis_sets_cached_def Let_def try_load_Some
           split: option.splits sum.splits prod.splits)

lemma cached_idempotent:
  assumes "get_basis_sets_cached ext n nbf0 (Some d) verbose w = (Inr r, w1)"
  shows "get_basis_sets_cached ext n nbf0 (Some d) verbose w1 = (Inr r, w1) \<and>
         (synth_log w1 = synth_log w \<or> synth_log w1 = synth_log w @ [(n, nbf_default n nbf0)])"
proof -
  define nbf where "nbf = nbf_default n nbf0"
  define path where "path = path_join d (basis_name n nbf)"
  have saved: ?thesis
    if sv: "synthesize_and_save ext n nbf (Some d) (basis_name n nbf) verbose w = (Inr r, w1)"
  proof -
    obtain M Mc L R where r: "r = (Arr M, Arr Mc, Arr L, Arr R)"
      and w1: "w1 = w\<lparr>synth_log := synth_log w @ [(n, nbf)],
                  files := (files w)(path \<mapsto>
                     Sequence [Arr M, Arr Mc, Arr L, Arr R, Str (version_of ext)])\<rparr>"
      using synthesize_and_save_Inr[OF sv] unfolding path_def by blast
    have f: "files w1 (path_join d (basis_name n (nbf_default n nbf0))) =
               Some (Sequence [Arr M, Arr Mc, Arr L, Arr R, Str (version_of ext)])"
      by (simp add: w1 path_def nbf_def)
    have l: "load_basis_file (Sequence [Arr M, Arr Mc, Arr L, Arr R, Str (version_of ext)]) =
               Inr (Arr M, Arr Mc, Arr L, Arr R)"
      by (simp add: load_basis_file_unfold load_current_five)
    have "get_basis_sets_cached ext n nbf0 (Some d) verbose w1 = (Inr r, w1)"
      unfolding r by (rule cached_hit[OF f l]) simp
    moreover have "synth_log w1 = synth_log w @ [(n, nbf_default n nbf0)]"
      by (simp add: w1 nbf_def)
    ultimately show ?thesis by simp
  qed
  show ?thesis
  proof (cases "files w path")
    case None
    then show ?thesis
      using assms saved by (simp add: cached_cases Let_def nbf_def path_def)
  next
    case (Some f)
    show ?thesis
    proof (cases "load_basis_file f")
      case (Inl e)
      then show ?thesis
        using assms Some by (simp add: cached_cases Let_def nbf_def path_def)
    next
      case (Inr b)
      obtain M Mc L R where b: "b = (M, Mc, L, R)" by (cases b) auto
      show ?thesis
      proof (cases "M = NoneObj")
        case True
        then show ?thesis
          using assms saved Some Inr b by (simp add: cached_cases Let_def nbf_def path_def)
      next
        case False
        then have "r = (M, Mc, L, R)" "w1 = w"
          using assms Some Inr b by (simp_all add: cached_cases Let_def nbf_def path_def)
        then show ?thesis using assms by simp
      qed
    qed
  qed
qed

lemma cached_world:
  assumes "get_basis_sets_cached ext n nbf0 dir verbose w = (r, w1)"
  shows "writable w1 = writable w \<and>
         (synth_log w1 = synth_log w \<or> synth_log w1 = synth_log w @ [(n, nbf_default n nbf0)]) \<and>
         (\<forall>p. (\<forall>d. dir = Some d \<longrightarrow> p \<noteq> path_join d (basis_name n (nbf_default n nbf0)))
              \<longrightarrow> files w1 p = files w p)"
  using assms
  by (auto simp: get_basis_sets_cached_def synthesize_and_save_def Let_def np_save_def
           split: sum.splits prod.splits option.splits if_splits)

lemma generate_basis_sets_not_OddSize:
  assumes "n mod 2 \<noteq> 0"
  shows "generate_basis_sets g n nbf verbose \<noteq> Inl (ValueError OddSize)"
  using assms
  by (auto simp: generate_basis_sets_def Let_def bindE_Inl_iff split: if_splits
           dest!: zeros_error setcol_error foldM_error outer_step_error)

lemma synthesize_and_save_error:
  assumes "n mod 2 \<noteq> 0" and "synthesize_and_save ext n nbf dir name verbose w = (Inl e, w1)"
  shows "e \<noteq> ValueError OddSize"
  using assms(2) generate_basis_sets_not_OddSize[OF assms(1), of "gammaln_of ext" "Some nbf" verbose]
  by (auto simp: synthesize_and_save_def Let_def np_save_def
           split: sum.splits prod.splits option.splits if_splits
           dest!: get_left_right_matrices_error)

lemma cached_not_OddSize:
  assumes "n mod 2 \<noteq> 0"
  shows "fst (get_basis_sets_cached ext n nbf0 dir verbose w) \<noteq> Inl (ValueError OddSize)"
proof -
  have s: "fst (synthesize_and_save ext n nbf dir name verbose w) \<noteq> Inl (ValueError OddSize)"
    for nbf name
    using synthesize_and_save_error[OF assms, of ext nbf dir name verbose w]
    by (cases "synthesize_and_save ext n nbf dir name verbose w") auto
  show ?thesis
    using s
    by (auto simp: get_basis_sets_cached_def Let_def split: sum.splits option.splits prod.splits
             dest: try_load_error)
qed

lemma BASEX_init_unfold:
  "BASEX_init ext n nbf dir cs dr v w =
     (case get_basis_sets_cached ext (2 * (n div 2) + 1) nbf dir v w of
        (Inl e, w') \<Rightarrow> (Inl e, w')
      | (Inr (M, Mc, M_left, M_right), w') \<Rightarrow>
          (Inr \<lparr>verbose_of = v, calc_speeds_of = cs, dr_of = dr, n_of = 2 * (n div 2) + 1,
                M_of = M, Mc_of = Mc, M_left_of = M_left, M_right_of = M_right\<rparr>, w'))"
  by (simp add: BASEX_init_def Let_def)

lemma BASEX_init_fst_snd:
  "snd (BASEX_init ext n nbf dir cs dr v w)
     = snd (get_basis_sets_cached ext (2 * (n div 2) + 1) nbf dir v w)"
  "fst (BASEX_init ext n nbf dir cs dr v w) = Inl e \<longleftrightarrow>
     fst (get_basis_sets_cached ext (2 * (n div 2) + 1) nbf dir v w) = Inl e"
  "fst (BASEX_init ext n nbf dir cs dr v w) = Inr b \<Longrightarrow> n_of b = 2 * (n div 2) + 1"
  by (auto simp: BASEX_init_unfold split: prod.splits sum.splits)

section \<open>The configuration of size 3\<close>

lemmas shapes3 = image3_def row3_def left3_def right3_def M3_def Mc3_def McQ_def

lemma generate_basis_sets_3:
  "generate_basis_sets g 3 None False = Inr (M3, Mc3)"
  "generate_basis_sets g 3 (Some 1) False = Inr (M3, Mc3)"
  by (simp_all add: generate_basis_sets_def nbf_default_def Let_def zeros_def arange_def
      setcol_def norm_index_def delta_def numeral_3_eq_3 upto_rec1 M3_def Mc3_def)

lemma get_left_right_matrices_3: "\<not> isl (get_left_right_matrices inv_ref M3 Mc3)"
proof -
  have e: "0 < exp (-1::real) * exp (-1)" by simp
  have "5 + 8 * (exp (- 1) * exp (- 1)) \<noteq> (0::real)" "2 * (exp (- 1) * exp (- 1)) + 1 \<noteq> (0::real)"
    using e by linarith+
  then show ?thesis
    by (simp add: get_left_right_matrices_def dot_def T_def matmul_def add_def mat_add_def
      scale_def identity_def inv_call_def inv_ref_def Let_def numeral_3_eq_3 upt_rec
      M3_def Mc3_def)
qed

lemma synthesize_and_save_3:
  assumes "writable w (path_join d name)"
  shows "\<not> isl (fst (synthesize_and_save ext_ref 3 1 (Some d) name False w))"
proof -
  obtain L R where lr: "get_left_right_matrices inv_ref M3 Mc3 = Inr (L, R)"
    using get_left_right_matrices_3 by (cases "get_left_right_matrices inv_ref M3 Mc3") auto
  show ?thesis
    using assms
    by (simp add: synthesize_and_save_def Let_def ext_ref_def generate_basis_sets_3 lr np_save_def)
qed

lemma cached_3_empty:
  "\<not> isl (fst (get_basis_sets_cached ext_ref 3 None (Some ''.'') False empty_world))"
proof -
  have "files empty_world p = None" "writable empty_world p" for p
    by (simp_all add: empty_world_def)
  then show ?thesis
    using synthesize_and_save_3[of empty_world "''.''" "basis_name 3 1"]
    by (simp add: cached_cases Let_def nbf_default_def)
qed

section \<open>Claims about the synthesizer\<close>

text \<open>
  Claim C1. For an odd \<open>n\<close> and a basis count \<open>nbf\<close> with \<open>1 \<le> nbf \<le> n div 2\<close> (given as a
  number or as \<^verbatim>\<open>'auto'\<close>), the synthesizer returns, and for every basis index
  \<open>1 \<le> k \<le> nbf - 1\<close> the matrix \<open>M\<close> it returns has \<open>2 angn\<close> in the centre row of column
  \<open>k\<close>, and \<open>2 (val + angn exp(-l\<^sup>2) + S)\<close> in both rows at distance \<open>l\<close> from the centre,
  for every \<open>1 \<le> l \<le> n - center\<close>, where \<open>S\<close> is the sum over \<open>p\<close> from
  \<open>max(1, l\<^sup>2 - \<Delta>(k))\<close> to \<open>min(k\<^sup>2 - 1, l\<^sup>2 + \<Delta>(k))\<close> of the term \<open>series_term_spec\<close>,
  one exponential of a sum of logarithms and log-Gamma values.
\<close>

theorem generate_basis_sets_M_entries:
  assumes n: "n mod 2 = 1" and nbf: "nbf = nbf_default n nbf0"
    and valid: "1 \<le> nbf" "nbf \<le> n div 2"
    and k: "1 \<le> k" "k \<le> nbf - 1"
    and center: "center = n div 2 + 1"
  shows "\<exists>M Mc. generate_basis_sets lnGamma n nbf0 verbose = Inr (M, Mc) \<and>
           getitem M (center - 1) k = Inr (2 * angn_spec lnGamma k) \<and>
           (\<forall>l. 1 \<le> l \<and> l \<le> n - center \<longrightarrow>
              getitem M (center - 1 + l) k =
                Inr (2 * (val_spec k l + angn_spec lnGamma k * exp (- of_int (l\<^sup>2))
                          + series_spec lnGamma k l)) \<and>
              getitem M (center - 1 - l) k =
                Inr (2 * (val_spec k l + angn_spec lnGamma k * exp (- of_int (l\<^sup>2))
                          + series_spec lnGamma k l)))"
proof -
  obtain M Mc where
    gen: "generate_basis_sets lnGamma n nbf0 verbose =
            (if verbose \<and> nbf \<le> 1 then Inl UnboundLocalError else Inr (M, Mc))"
    and sh: "shaped n nbf M"
    and eM: "\<forall>r c. 0 \<le> r \<and> r < n \<and> 0 \<le> c \<and> c < nbf \<longrightarrow>
              ent M r c = (if c = 0 then 2 * exp (- of_int ((r + 1 - center)\<^sup>2))
                           else M_fun lnGamma center r c)"
    using generate_basis_sets_ok[OF n nbf valid center] by blast
  have nn: "n = 2 * (n div 2) + 1" using n by presburger
  have gen': "generate_basis_sets lnGamma n nbf0 verbose = Inr (M, Mc)"
    using gen k by simp
  have rc: "0 \<le> center - 1 \<and> center - 1 < n \<and> 0 \<le> k \<and> k < nbf"
    using nn center k valid by linarith
  have mid: "getitem M (center - 1) k = Inr (2 * angn_spec lnGamma k)"
    using getitem_ent[OF sh rc] eM rc k(1) by (simp add: M_fun_def)
  have side: "getitem M r k =
                Inr (2 * (val_spec k l + angn_spec lnGamma k * exp (- of_int (l\<^sup>2))
                          + series_spec lnGamma k l))"
    if l: "1 \<le> l" "l \<le> n - center" and r: "r = center - 1 + l \<or> r = center - 1 - l" for l r
  proof -
    have rr: "0 \<le> r \<and> r < n \<and> 0 \<le> k \<and> k < nbf"
      using nn center k valid l r by linarith
    have "offset center r = l" "r \<noteq> center - 1"
      using l r by (auto simp: offset_def)
    then show ?thesis
      using getitem_ent[OF sh rr] eM rr k(1) by (simp add: M_fun_def M_entry_spec_def)
  qed
  show ?thesis
    using gen' mid side by blast
qed

theorem generate_basis_sets_M_entries_witness:
  "\<exists>M Mc. generate_basis_sets gammaln_ref 7 (Some 3) False = Inr (M, Mc) \<and>
     getitem M 3 2 = Inr (2 * angn_spec gammaln_ref 2) \<and>
     getitem M 4 2 =
       Inr (2 * (val_spec 2 1 + angn_spec gammaln_ref 2 * exp (- of_int (1\<^sup>2))
                 + (series_term_spec gammaln_ref 2 1 1 + series_term_spec gammaln_ref 2 1 2
                    + series_term_spec gammaln_ref 2 1 3))) \<and>
     getitem M 2 2 =
       Inr (2 * (val_spec 2 1 + angn_spec gammaln_ref 2 * exp (- of_int (1\<^sup>2))
                 + (series_term_spec gammaln_ref 2 1 1 + series_term_spec gammaln_ref 2 1 2
                    + series_term_spec gammaln_ref 2 1 3)))"
proof -
  have h: "(7::int) mod 2 = 1" "(3::int) = nbf_default 7 (Some 3)" "(1::int) \<le> 3"
    "(3::int) \<le> 7 div 2" "(1::int) \<le> 2" "(2::int) \<le> 3 - 1" "(4::int) = 7 div 2 + 1"
    by (simp_all add: nbf_default_def)
  have w: "{1..3::int} = {1, 2, 3}" by auto
  have ser: "series_spec gammaln_ref 2 1 =
               series_term_spec gammaln_ref 2 1 1 + series_term_spec gammaln_ref 2 1 2
               + series_term_spec gammaln_ref 2 1 3"
    by (simp add: series_spec_def Delta_spec_def w)
  from generate_basis_sets_M_entries[OF h, of gammaln_ref False] obtain M Mc where
    g: "generate_basis_sets gammaln_ref 7 (Some 3) False = Inr (M, Mc)"
    and m: "getitem M (4 - 1) 2 = Inr (2 * angn_spec gammaln_ref 2)"
    and s: "\<forall>l. 1 \<le> l \<and> l \<le> 7 - 4 \<longrightarrow>
              getitem M (4 - 1 + l) 2 =
                Inr (2 * (val_spec 2 l + angn_spec gammaln_ref 2 * exp (- of_int (l\<^sup>2))
                          + series_spec gammaln_ref 2 l)) \<and>
              getitem M (4 - 1 - l) 2 =
                Inr (2 * (val_spec 2 l + angn_spec gammaln_ref 2 * exp (- of_int (l\<^sup>2))
                          + series_spec gammaln_ref 2 l))"
    by blast
  from s[rule_format, of 1] m g show ?thesis by (simp add: ser)
qed

text \<open>
  Claim C2. For a valid configuration the synthesizer returns unless it was asked to print
  its progress with a single basis function; and whenever it returns \<open>(M, Mc)\<close>, column 0
  is the Gaussian profile on \<open>R2[i] = (i - center)\<^sup>2\<close> for \<open>i = 1..n\<close>, twice that in
  \<open>M\<close>, and for every \<open>1 \<le> k \<le> nbf - 1\<close> and \<open>1 \<le> l \<le> n - center\<close> both rows of \<open>Mc\<close> at
  distance \<open>l\<close> from the centre hold \<open>exp(k\<^sup>2 - l\<^sup>2 + 2 k\<^sup>2 ln(l / k))\<close> in column \<open>k\<close>.
\<close>

theorem generate_basis_sets_column0_Mc:
  assumes n: "n mod 2 = 1" and nbf: "nbf = nbf_default n nbf0"
    and valid: "1 \<le> nbf" "nbf \<le> n div 2"
    and center: "center = n div 2 + 1"
  shows "(\<not> (verbose \<and> nbf = 1) \<longrightarrow>
            (\<exists>M Mc. generate_basis_sets lnGamma n nbf0 verbose = Inr (M, Mc))) \<and>
         (\<forall>M Mc. generate_basis_sets lnGamma n nbf0 verbose = Inr (M, Mc) \<longrightarrow>
            (\<forall>i. 1 \<le> i \<and> i \<le> n \<longrightarrow>
               getitem M (i - 1) 0 = Inr (2 * exp (- of_int ((i - center)\<^sup>2))) \<and>
               getitem Mc (i - 1) 0 = Inr (exp (- of_int ((i - center)\<^sup>2)))) \<and>
            (\<forall>k l. 1 \<le> k \<and> k \<le> nbf - 1 \<and> 1 \<le> l \<and> l \<le> n - center \<longrightarrow>
               getitem Mc (center - 1 + l) k = Inr (val_spec k l) \<and>
               getitem Mc (center - 1 - l) k = Inr (val_spec k l)))"
proof -
  obtain M Mc where
    gen: "generate_basis_sets lnGamma n nbf0 verbose =
            (if verbose \<and> nbf \<le> 1 then Inl UnboundLocalError else Inr (M, Mc))"
    and sh: "shaped n nbf M" "shaped n nbf Mc"
    and eM: "\<forall>r c. 0 \<le> r \<and> r < n \<and> 0 \<le> c \<and> c < nbf \<longrightarrow>
              ent M r c = (if c = 0 then 2 * exp (- of_int ((r + 1 - center)\<^sup>2))
                           else M_fun lnGamma center r c)"
    and eMc: "\<forall>r c. 0 \<le> r \<and> r < n \<and> 0 \<le> c \<and> c < nbf \<longrightarrow>
              ent Mc r c = (if c = 0 then exp (- of_int ((r + 1 - center)\<^sup>2))
                            else if r = center - 1 then 0 else Mc_fun center r c)"
    using generate_basis_sets_ok[OF n nbf valid center] by blast
  have nn: "n = 2 * (n div 2) + 1" using n by presburger
  have ret: "\<not> (verbose \<and> nbf = 1) \<longrightarrow>
               (\<exists>M Mc. generate_basis_sets lnGamma n nbf0 verbose = Inr (M, Mc))"
    using gen valid(1) by auto
  have col: "getitem M (i - 1) 0 = Inr (2 * exp (- of_int ((i - center)\<^sup>2))) \<and>
             getitem Mc (i - 1) 0 = Inr (exp (- of_int ((i - center)\<^sup>2)))"
    if "1 \<le> i \<and> i \<le> n" for i
  proof -
    have rc: "0 \<le> i - 1 \<and> i - 1 < n \<and> (0::int) \<le> 0 \<and> 0 < nbf"
      using that valid(1) by linarith
    show ?thesis
      using getitem_ent[OF sh(1) rc] getitem_ent[OF sh(2) rc] eM eMc rc by simp
  qed
  have side: "getitem Mc r k = Inr (val_spec k l)"
    if kl: "1 \<le> k \<and> k \<le> nbf - 1 \<and> 1 \<le> l \<and> l \<le> n - center"
      and r: "r = center - 1 + l \<or> r = center - 1 - l" for k l r
  proof -
    have rr: "0 \<le> r \<and> r < n \<and> 0 \<le> k \<and> k < nbf"
      using nn center kl r by linarith
    have "offset center r = l" "r \<noteq> center - 1" "k \<noteq> 0"
      using kl r by (auto simp: offset_def)
    then show ?thesis
      using getitem_ent[OF sh(2) rr] eMc rr by (simp add: Mc_fun_def)
  qed
  have "(\<forall>i. 1 \<le> i \<and> i \<le> n \<longrightarrow>
               getitem M' (i - 1) 0 = Inr (2 * exp (- of_int ((i - center)\<^sup>2))) \<and>
               getitem Mc' (i - 1) 0 = Inr (exp (- of_int ((i - center)\<^sup>2)))) \<and>
            (\<forall>k l. 1 \<le> k \<and> k \<le> nbf - 1 \<and> 1 \<le> l \<and> l \<le> n - center \<longrightarrow>
               getitem Mc' (center - 1 + l) k = Inr (val_spec k l) \<and>
               getitem Mc' (center - 1 - l) k = Inr (val_spec k l))"
    if "generate_basis_sets lnGamma n nbf0 verbose = Inr (M', Mc')" for M' Mc'
  proof -
    have "M' = M" "Mc' = Mc" using that gen by (auto split: if_splits)
    then show ?thesis using col side by blast
  qed
  then show ?thesis using ret by blast
qed

theorem generate_basis_sets_column0_Mc_witness:
  "\<exists>M Mc. generate_basis_sets gammaln_ref 5 None False = Inr (M, Mc) \<and>
     getitem M (1 - 1) 0 = Inr (2 * exp (- of_int ((1 - 3)\<^sup>2))) \<and>
     getitem Mc (1 - 1) 0 = Inr (exp (- of_int ((1 - 3)\<^sup>2))) \<and>
     getitem Mc (3 - 1 + 2) 1 = Inr (val_spec 1 2) \<and>
     getitem Mc (3 - 1 - 2) 1 = Inr (val_spec 1 2)"
proof -
  have h: "(5::int) mod 2 = 1" "(2::int) = nbf_default 5 None" "(1::int) \<le> 2"
    "(2::int) \<le> 5 div 2" "(3::int) = 5 div 2 + 1"
    by (simp_all add: nbf_default_def)
  note c2 = generate_basis_sets_column0_Mc[OF h, of False gammaln_ref]
  from c2 obtain M Mc where g: "generate_basis_sets gammaln_ref 5 None False = Inr (M, Mc)"
    by auto
  from c2 g have
    col: "\<forall>i. 1 \<le> i \<and> i \<le> 5 \<longrightarrow>
               getitem M (i - 1) 0 = Inr (2 * exp (- of_int ((i - 3)\<^sup>2))) \<and>
               getitem Mc (i - 1) 0 = Inr (exp (- of_int ((i - 3)\<^sup>2)))"
    and side: "\<forall>k l. 1 \<le> k \<and> k \<le> 2 - 1 \<and> 1 \<le> l \<and> l \<le> 5 - 3 \<longrightarrow>
               getitem Mc (3 - 1 + l) k = Inr (val_spec k l) \<and>
               getitem Mc (3 - 1 - l) k = Inr (val_spec k l)"
    by blast+
  have "getitem M (1 - 1) 0 = Inr (2 * exp (- of_int ((1 - 3)\<^sup>2))) \<and>
        getitem Mc (1 - 1) 0 = Inr (exp (- of_int ((1 - 3)\<^sup>2)))"
    using col[rule_format, of 1] by simp
  moreover have "getitem Mc (3 - 1 + 2) 1 = Inr (val_spec 1 2) \<and>
                 getitem Mc (3 - 1 - 2) 1 = Inr (val_spec 1 2)"
    using side[rule_format, of 1 2] by simp
  ultimately show ?thesis using g by blast
qed

text \<open>
  Claim C5. An even \<open>n\<close> is refused with the odd-size \<^verbatim>\<open>ValueError\<close>, which is the first
  statement of the function; a basis count above \<open>n div 2\<close> is refused with a
  \<^verbatim>\<open>ValueError\<close> (the one about the basis count when \<open>n\<close> is odd) and no matrix is
  returned; and for an odd \<open>n\<close> with a basis count of at most \<open>n div 2\<close> neither of the two
  errors is raised.
\<close>

theorem generate_basis_sets_config_errors:
  "(n mod 2 = 0 \<longrightarrow> generate_basis_sets lnGamma n nbf verbose = Inl (ValueError OddSize)) \<and>
   (n div 2 < nbf_default n nbf \<longrightarrow>
      generate_basis_sets lnGamma n nbf verbose = Inl (ValueError OddSize) \<or>
      generate_basis_sets lnGamma n nbf verbose = Inl (ValueError TooManyBasis)) \<and>
   (n mod 2 \<noteq> 0 \<and> n div 2 < nbf_default n nbf \<longrightarrow>
      generate_basis_sets lnGamma n nbf verbose = Inl (ValueError TooManyBasis)) \<and>
   (n mod 2 \<noteq> 0 \<and> nbf_default n nbf \<le> n div 2 \<longrightarrow>
      generate_basis_sets lnGamma n nbf verbose \<noteq> Inl (ValueError OddSize) \<and>
      generate_basis_sets lnGamma n nbf verbose \<noteq> Inl (ValueError TooManyBasis))"
proof -
  have even: "generate_basis_sets lnGamma n nbf verbose = Inl (ValueError OddSize)"
    if "n mod 2 = 0"
    using that by (simp add: generate_basis_sets_def)
  have large: "generate_basis_sets lnGamma n nbf verbose = Inl (ValueError TooManyBasis)"
    if "n mod 2 \<noteq> 0" "n div 2 < nbf_default n nbf"
    using that by (simp add: generate_basis_sets_def Let_def)
  have other: "generate_basis_sets lnGamma n nbf verbose \<noteq> Inl (ValueError OddSize) \<and>
      generate_basis_sets lnGamma n nbf verbose \<noteq> Inl (ValueError TooManyBasis)"
    if "n mod 2 \<noteq> 0" "nbf_default n nbf \<le> n div 2"
    using generate_basis_sets_odd_error[OF that] by fastforce
  show ?thesis using even large other by blast
qed

theorem generate_basis_sets_config_errors_witness:
  "generate_basis_sets gammaln_ref 100 None False = Inl (ValueError OddSize) \<and>
   generate_basis_sets gammaln_ref 5 (Some 3) False = Inl (ValueError TooManyBasis) \<and>
   generate_basis_sets gammaln_ref 5 (Some 2) False \<noteq> Inl (ValueError OddSize) \<and>
   generate_basis_sets gammaln_ref 5 (Some 2) False \<noteq> Inl (ValueError TooManyBasis)"
proof -
  have a: "(100::int) mod 2 = 0" by simp
  have b: "(5::int) mod 2 \<noteq> 0 \<and> 5 div 2 < nbf_default 5 (Some 3)"
    by (simp add: nbf_default_def)
  have c: "(5::int) mod 2 \<noteq> 0 \<and> nbf_default 5 (Some 2) \<le> 5 div 2"
    by (simp add: nbf_default_def)
  show ?thesis
    using a b c generate_basis_sets_config_errors[of 100 gammaln_ref None False] generate_basis_sets_config_errors[of 5 gammaln_ref "Some 3" False]
      generate_basis_sets_config_errors[of 5 gammaln_ref "Some 2" False]
    by (simp add: nbf_default_def)
qed

section \<open>Claims about the transform and the operator builder\<close>

text \<open>
  Claim C3. For an image of shape \<open>n \<times> n\<close>, a bundle of the shapes of size \<open>n\<close> with
  \<open>nbf\<close> basis functions and a pixel size \<open>dr\<close> other than zero, the transform returns the
  \<open>n \<times> n\<close> array whose entry \<open>(i, j)\<close> is \<open>8.053 / dr\<close> times the entry \<open>(i, j)\<close> of
  \<open>Mc ((OpLeft X) OpRight) Mc\<^sup>T\<close>, each product being the sum over the inner index.
\<close>

theorem basex_transform_formula:
  assumes "nrows X = n" "ncols X = n"
    and "nrows OpLeft = nbf" "ncols OpLeft = n"
    and "nrows OpRight = n" "ncols OpRight = nbf"
    and "nrows Mc = n" "ncols Mc = nbf"
    and "value_of dr \<noteq> 0"
  shows "basex_transform X M Mc OpLeft OpRight dr =
           Inr (Finite (array_of n n (\<lambda>i j. (8.053 / value_of dr) *
             product_spec nbf
               (product_spec nbf (mat_of Mc)
                  (product_spec n (product_spec n (mat_of OpLeft) (mat_of X)) (mat_of OpRight)))
               (transpose_spec (mat_of Mc)) i j)))"
  using basex_transform_ok[OF assms] by (simp add: transform_spec_def)

theorem basex_transform_formula_witness:
  "basex_transform image3 M3 McQ left3 right3 (PyNumber 2) =
     Inr (Finite (NDArray 3 3
       [[8053/32000, 8053/16000, 8053/32000],
        [8053/16000, 8053/8000, 8053/16000],
        [8053/32000, 8053/16000, 8053/32000]]))"
proof -
  have h: "nrows image3 = 3" "ncols image3 = 3" "nrows left3 = 1" "ncols left3 = 3"
    "nrows right3 = 3" "ncols right3 = 1" "nrows McQ = 3" "ncols McQ = 1"
    "value_of (PyNumber 2) \<noteq> 0"
    by (simp_all add: shapes3)
  show ?thesis
    unfolding basex_transform_formula[OF h, of M3]
    by (simp add: array_of_def product_spec_def transpose_spec_def mat_of_def shapes3
        numeral_3_eq_3 lessThan_Suc)
qed

text \<open>
  Claim C4. For an inverse that keeps the shape of its argument, the operator builder
  returns \<open>OpLeft = inverse(Mc\<^sup>T Mc) Mc\<^sup>T\<close>, where the matrix that is inverted has the
  entries \<open>\<Sum>r. Mc[r, a] Mc[r, b]\<close> and nothing added, and
  \<open>OpRight = M inverse(M\<^sup>T M + q I)\<close> with \<open>q = 1\<close>, where the matrix that is inverted has
  the entries \<open>\<Sum>r. M[r, a] M[r, b] + 1\<close> on the diagonal and \<open>\<Sum>r. M[r, a] M[r, b]\<close> off
  it; it raises the error of the inverse when one of the two cannot be inverted.
\<close>

theorem get_left_right_matrices_formula:
  assumes "\<forall>A B. np_inv A = Some B \<longrightarrow> nrows B = nrows A \<and> ncols B = ncols A"
  shows "get_left_right_matrices np_inv M Mc =
           (case OpLeft_spec np_inv Mc of
              None \<Rightarrow> Inl LinAlgError
            | Some OpLeft \<Rightarrow>
                (case OpRight_spec np_inv M 1 of
                   None \<Rightarrow> Inl LinAlgError
                 | Some OpRight \<Rightarrow> Inr (OpLeft, OpRight)))"
  using assms by (rule get_left_right_matrices_ok)

theorem get_left_right_matrices_formula_witness:
  "get_left_right_matrices inv2_ref basis5 basis5 =
     Inr (NDArray 2 5 [[2/3, 1/3, - 1/3, 0, 0], [- 1/3, 1/3, 2/3, 0, 0]],
          NDArray 5 2 [[3/8, - 1/8], [1/4, 1/4], [- 1/8, 3/8], [0, 0], [0, 0]])"
proof -
  have h: "\<forall>A B. inv2_ref A = Some B \<longrightarrow> nrows B = nrows A \<and> ncols B = ncols A"
    using inv2_ref_shape by blast
  have l: "OpLeft_spec inv2_ref basis5 =
             Some (NDArray 2 5 [[2/3, 1/3, - 1/3, 0, 0], [- 1/3, 1/3, 2/3, 0, 0]])"
    by (simp add: OpLeft_spec_def Let_def array_of_def product_spec_def transpose_spec_def
        mat_of_def basis5_def inv2_ref_def numeral_2_eq_2 eval_nat_numeral lessThan_Suc)
  have r: "OpRight_spec inv2_ref basis5 1 =
             Some (NDArray 5 2 [[3/8, - 1/8], [1/4, 1/4], [- 1/8, 3/8], [0, 0], [0, 0]])"
    by (simp add: OpRight_spec_def Let_def array_of_def product_spec_def transpose_spec_def
        mat_of_def basis5_def inv2_ref_def numeral_2_eq_2 eval_nat_numeral lessThan_Suc)
  show ?thesis
    unfolding get_left_right_matrices_formula[OF h] by (simp add: l r)
qed

text \<open>
  Claim C6, as stated, fails: with a negative \<open>dr\<close> the transform returns a result. Here
  the image and the bundle have the shapes of size 3 and \<open>dr = -1\<close>.
\<close>

theorem basex_transform_negative_dr_returns:
  "basex_transform image3 M3 McQ left3 right3 (PyNumber (- 1)) =
     Inr (Finite (NDArray 3 3
       [[- (8053/16000), - (8053/8000), - (8053/16000)],
        [- (8053/8000), - (8053/4000), - (8053/8000)],
        [- (8053/16000), - (8053/8000), - (8053/16000)]]))"
proof -
  have h: "nrows image3 = 3" "ncols image3 = 3" "nrows left3 = 1" "ncols left3 = 3"
    "nrows right3 = 3" "ncols right3 = 1" "nrows McQ = 3" "ncols McQ = 1"
    "value_of (PyNumber (- 1)) \<noteq> 0"
    by (simp_all add: shapes3)
  show ?thesis
    unfolding basex_transform_ok[OF h, of M3]
    by (simp add: transform_spec_def array_of_def product_spec_def transpose_spec_def mat_of_def
        shapes3 numeral_3_eq_3 lessThan_Suc)
qed

text \<open>
  Claim C6, amended. For a bundle of the shapes of size \<open>n\<close>: an image whose shape is not
  \<open>n \<times> n\<close> makes the first or the second matrix product raise a \<^verbatim>\<open>ValueError\<close>. With
  an image of shape \<open>n \<times> n\<close>, a negative \<open>dr\<close> raises nothing: the result has the entries
  of the product times \<open>8.053 / dr\<close>. A zero \<open>dr\<close> raises \<^verbatim>\<open>ZeroDivisionError\<close> when it
  is a Python number, and when it is a NumPy scalar the call returns an array without
  finite values.
\<close>

theorem basex_transform_errors:
  assumes "nrows OpLeft = nbf" "ncols OpLeft = n"
    and "nrows OpRight = n" "ncols OpRight = nbf"
    and "nrows Mc = n" "ncols Mc = nbf"
  shows "(nrows X \<noteq> n \<or> ncols X \<noteq> n \<longrightarrow>
            basex_transform X M Mc OpLeft OpRight dr = Inl (ValueError ShapesNotAligned)) \<and>
         (nrows X = n \<and> ncols X = n \<and> value_of dr < 0 \<longrightarrow>
            basex_transform X M Mc OpLeft OpRight dr =
              Inr (Finite (array_of n n (\<lambda>i j. (8.053 / value_of dr) *
                product_spec nbf
                  (product_spec nbf (mat_of Mc)
                     (product_spec n (product_spec n (mat_of OpLeft) (mat_of X)) (mat_of OpRight)))
                  (transpose_spec (mat_of Mc)) i j)))) \<and>
         (nrows X = n \<and> ncols X = n \<longrightarrow>
            basex_transform X M Mc OpLeft OpRight (PyNumber 0) = Inl ZeroDivisionError \<and>
            basex_transform X M Mc OpLeft OpRight (NpScalar 0) = Inr NonFinite)"
proof (intro conjI impI)
  assume "nrows X \<noteq> n \<or> ncols X \<noteq> n"
  then show "basex_transform X M Mc OpLeft OpRight dr = Inl (ValueError ShapesNotAligned)"
    using basex_transform_shape_error[OF assms(2,3)] by blast
next
  assume a: "nrows X = n \<and> ncols X = n \<and> value_of dr < 0"
  then have "value_of dr \<noteq> 0" by simp
  with a show "basex_transform X M Mc OpLeft OpRight dr =
              Inr (Finite (array_of n n (\<lambda>i j. (8.053 / value_of dr) *
                product_spec nbf
                  (product_spec nbf (mat_of Mc)
                     (product_spec n (product_spec n (mat_of OpLeft) (mat_of X)) (mat_of OpRight)))
                  (transpose_spec (mat_of Mc)) i j)))"
    using basex_transform_ok[of X n OpLeft nbf OpRight Mc dr M] assms
    by (simp add: transform_spec_def)
next
  assume a: "nrows X = n \<and> ncols X = n"
  then show "basex_transform X M Mc OpLeft OpRight (PyNumber 0) = Inl ZeroDivisionError"
    using basex_transform_zero_dr(1)[of X n OpLeft nbf OpRight Mc M] assms by simp
next
  assume a: "nrows X = n \<and> ncols X = n"
  then show "basex_transform X M Mc OpLeft OpRight (NpScalar 0) = Inr NonFinite"
    using basex_transform_zero_dr(2)[of X n OpLeft nbf OpRight Mc M] assms by simp
qed

theorem basex_transform_errors_witness:
  "basex_transform row3 M3 McQ left3 right3 (PyNumber 1) = Inl (ValueError ShapesNotAligned) \<and>
   basex_transform image3 M3 McQ left3 right3 (NpScalar (- 2)) =
     Inr (Finite (NDArray 3 3
       [[- (8053/32000), - (8053/16000), - (8053/32000)],
        [- (8053/16000), - (8053/8000), - (8053/16000)],
        [- (8053/32000), - (8053/16000), - (8053/32000)]])) \<and>
   basex_transform image3 M3 McQ left3 right3 (PyNumber 0) = Inl ZeroDivisionError \<and>
   basex_transform image3 M3 McQ left3 right3 (NpScalar 0) = Inr NonFinite"
proof -
  have h: "nrows left3 = 1" "ncols left3 = 3" "nrows right3 = 3" "ncols right3 = 1"
    "nrows McQ = 3" "ncols McQ = 1"
    by (simp_all add: shapes3)
  have x: "nrows row3 \<noteq> 3 \<or> ncols row3 \<noteq> 3" "nrows image3 = 3 \<and> ncols image3 = 3"
    "value_of (NpScalar (- 2)) < 0"
    by (simp_all add: shapes3)
  have v: "array_of 3 3 (\<lambda>i j. (8.053 / value_of (NpScalar (- 2))) *
                product_spec 1
                  (product_spec 1 (mat_of McQ)
                     (product_spec 3 (product_spec 3 (mat_of left3) (mat_of image3)) (mat_of right3)))
                  (transpose_spec (mat_of McQ)) i j) =
           NDArray 3 3
       [[- (8053/32000), - (8053/16000), - (8053/32000)],
        [- (8053/16000), - (8053/8000), - (8053/16000)],
        [- (8053/32000), - (8053/16000), - (8053/32000)]]"
    by (simp add: array_of_def product_spec_def transpose_spec_def mat_of_def shapes3
        numeral_3_eq_3 lessThan_Suc)
  show ?thesis
    using basex_transform_errors[OF h, of row3 M3 "PyNumber 1"]
      basex_transform_errors[OF h, of image3 M3 "NpScalar (- 2)"] x v
    by simp
qed

section \<open>Claims about the cache and the class\<close>

text \<open>
  Claim C7, as stated, fails: a file that cannot be read in either encoding makes the
  lookup raise the error of the load; the disk and the log of synthesizer calls are
  unchanged, although synthesis for that configuration would have succeeded.
\<close>

theorem cache_corrupt_error_surfaces:
  "load_current (Unloadable LoadOtherError) = Inl OSError \<and>
   load_legacy (Unloadable LoadOtherError) = Inl OSError \<and>
   get_basis_sets_cached ext_ref 3 None (Some ''.'') False corrupt_world
     = (Inl OSError, corrupt_world) \<and>
   \<not> isl (fst (synthesize_and_save ext_ref 3 1 (Some ''.'') (basis_name 3 1) False corrupt_world))"
proof -
  have f: "files corrupt_world (path_join ''.'' (basis_name 3 (nbf_default 3 None)))
             = Some (Unloadable LoadOtherError)"
    by (simp add: corrupt_world_def nbf_default_def)
  have l: "load_basis_file (Unloadable LoadOtherError) = Inl OSError"
    by (simp add: load_basis_file_unfold load_current_def np_load_def)
  have w: "writable corrupt_world (path_join ''.'' (basis_name 3 1))"
    by (simp add: corrupt_world_def)
  show ?thesis
    using cached_load_error[OF f l] synthesize_and_save_3[OF w]
    by (simp add: load_current_def load_legacy_def np_load_def)
qed

text \<open>
  Claim C7, amended. When the file at the path of the configuration can be read in
  neither encoding, the lookup raises the error of the legacy load and leaves the world
  as it was: no synthesis, no file written.
\<close>

theorem cache_corrupt_raises:
  assumes "files w (path_join d (basis_name n (nbf_default n nbf0))) = Some f"
    and "load_current f = Inl e1" and "load_legacy f = Inl e2"
  shows "get_basis_sets_cached ext n nbf0 (Some d) verbose w = (Inl e2, w)"
proof -
  have "load_basis_file f = Inl e2"
    using load_basis_file_fallback[OF assms(2)] assms(3) by simp
  then show ?thesis
    using cached_load_error[OF assms(1)] by simp
qed

theorem cache_corrupt_raises_witness:
  "get_basis_sets_cached ext_ref 3 None (Some ''.'') False corrupt_world
     = (Inl OSError, corrupt_world)"
proof -
  have f: "files corrupt_world (path_join ''.'' (basis_name 3 (nbf_default 3 None)))
             = Some (Unloadable LoadOtherError)"
    by (simp add: corrupt_world_def nbf_default_def)
  have c: "load_current (Unloadable LoadOtherError) = Inl OSError"
    by (simp add: load_current_def np_load_def)
  have l: "load_legacy (Unloadable LoadOtherError) = Inl OSError"
    by (simp add: load_legacy_def np_load_def)
  show ?thesis
    by (rule cache_corrupt_raises[OF f c l])
qed

text \<open>
  Claim C8, as stated, fails: a file whose first load raises something other than a
  \<^verbatim>\<open>ValueError\<close> makes the loader raise that exception at once. The second load is not
  run: with a second load that would succeed on the file, the loader still raises.
\<close>

theorem legacy_load_skipped_after_other_error:
  "load_current (Unloadable LoadOtherError) = Inl OSError \<and>
   second_load_stub (Unloadable LoadOtherError) = Inr (Arr M3, Arr Mc3, Arr left3, Arr right3) \<and>
   load_basis_file_with second_load_stub (Unloadable LoadOtherError) = Inl OSError"
  by (simp add: load_current_def np_load_def second_load_stub_def load_basis_file_with_def)

text \<open>
  Claim C8, amended. When the load in the current five-element encoding fails with a
  \<^verbatim>\<open>ValueError\<close> (a wrong arity, or a \<^verbatim>\<open>ValueError\<close> of \<^verbatim>\<open>np.load\<close>), the loader runs
  the load in the four-element legacy encoding before it raises anything, and its result
  is the result of that load; every other exception of the first load is raised again at
  once, whatever the second load would do. The five fields of the current encoding and
  the four of the legacy one go to the same names \<open>(M, Mc, OpLeft, OpRight)\<close>, also for
  the tuple that the older constructor saves, and a lookup that finds a legacy file
  returns them without changing the world.
\<close>

theorem legacy_encoding_fallback:
  "(load_current f = Inl (ValueError v) \<longrightarrow>
      load_basis_file_with second_load f = second_load f \<and>
      load_basis_file f = load_legacy f) \<and>
   (load_current f = Inl e \<and> (\<forall>v. e \<noteq> ValueError v) \<longrightarrow>
      load_basis_file_with second_load f = Inl e \<and> load_basis_file f = Inl e) \<and>
   load_current (Sequence [M, Mc, OpLeft, OpRight, V]) = Inr (M, Mc, OpLeft, OpRight) \<and>
   load_legacy (Sequence [OpLeft, OpRight, M, Mc]) = Inr (M, Mc, OpLeft, OpRight) \<and>
   load_basis_file (Sequence [OpLeft, OpRight, M, Mc]) = Inr (M, Mc, OpLeft, OpRight) \<and>
   load_basis_file (legacy_tuple A B C D) = Inr (Arr C, Arr D, Arr A, Arr B) \<and>
   (files w (path_join d (basis_name n (nbf_default n nbf0)))
        = Some (Sequence [OpLeft, OpRight, M, Mc]) \<and> M \<noteq> NoneObj \<longrightarrow>
      get_basis_sets_cached ext n nbf0 (Some d) verbose w = (Inr (M, Mc, OpLeft, OpRight), w))"
proof -
  have l: "load_basis_file (Sequence [L, R, N, Nc]) = Inr (N, Nc, L, R)" for L R N Nc
    using load_basis_file_fallback[OF load_current_four] by (simp add: load_legacy_four)
  have t: "load_basis_file (legacy_tuple A B C D) = Inr (Arr C, Arr D, Arr A, Arr B)"
    by (simp add: legacy_tuple_def l)
  have h: "get_basis_sets_cached ext n nbf0 (Some d) verbose w = (Inr (M, Mc, OpLeft, OpRight), w)"
    if "files w (path_join d (basis_name n (nbf_default n nbf0)))
          = Some (Sequence [OpLeft, OpRight, M, Mc]) \<and> M \<noteq> NoneObj"
    using that cached_hit[OF _ l] by blast
  have a: "load_basis_file_with second_load f = second_load f \<and> load_basis_file f = load_legacy f"
    if "load_current f = Inl (ValueError v)"
    using load_basis_file_with_ValueError[OF that] by (simp add: load_basis_file_def)
  have b: "load_basis_file_with second_load f = Inl e \<and> load_basis_file f = Inl e"
    if "load_current f = Inl e \<and> (\<forall>v. e \<noteq> ValueError v)"
    using that load_basis_file_with_other[of f e] by (simp add: load_basis_file_def)
  show ?thesis
    using a b l[of OpLeft OpRight M Mc] t h
    by (simp add: load_current_five load_legacy_four)
qed

theorem legacy_encoding_fallback_witness:
  "load_current legacy_file3 = Inl (ValueError Unpack) \<and>
   load_basis_file legacy_file3 = load_legacy legacy_file3 \<and>
   load_basis_file legacy_file3 = Inr (Arr M3, Arr Mc3, Arr left3, Arr right3) \<and>
   load_current (Unloadable LoadOtherError) = Inl OSError \<and>
   load_basis_file (Unloadable LoadOtherError) = Inl OSError \<and>
   get_basis_sets_cached ext_ref 3 None (Some ''.'') False legacy_world
     = (Inr (Arr M3, Arr Mc3, Arr left3, Arr right3), legacy_world)"
proof -
  have c: "load_current legacy_file3 = Inl (ValueError Unpack)"
    by (simp add: legacy_file3_def legacy_tuple_def load_current_four)
  have o: "load_current (Unloadable LoadOtherError) = Inl OSError \<and> (\<forall>v. OSError \<noteq> ValueError v)"
    by (simp add: load_current_def np_load_def)
  have f: "files legacy_world (path_join ''.'' (basis_name 3 (nbf_default 3 None)))
             = Some (Sequence [Arr left3, Arr right3, Arr M3, Arr Mc3]) \<and> Arr M3 \<noteq> NoneObj"
    by (simp add: legacy_world_def legacy_file3_def legacy_tuple_def nbf_default_def)
  note t1 = legacy_encoding_fallback[of legacy_file3 Unpack load_legacy OSError "Arr M3" "Arr Mc3"
        "Arr left3" "Arr right3" "Str []" left3 right3 M3 Mc3 legacy_world "''.''" 3 None
        ext_ref False]
  note t2 = legacy_encoding_fallback[of "Unloadable LoadOtherError" Unpack load_legacy OSError
        "Arr M3" "Arr Mc3" "Arr left3" "Arr right3" "Str []" left3 right3 M3 Mc3 legacy_world
        "''.''" 3 None ext_ref False]
  show ?thesis
    using c o f t1 t2 by (simp add: legacy_file3_def legacy_tuple_def)
qed

text \<open>
  Claim C9. When a loadable file exists at the path of the configuration, the lookup
  returns its fields and leaves the world, the log of synthesizer calls included, as it
  was. And when a lookup with a directory returns, the same lookup in the world it leaves
  returns the same fields and leaves that world unchanged, so the two lookups together
  call the synthesizer at most once.
\<close>

theorem cache_hit_idempotent:
  "(files w (path_join d (basis_name n (nbf_default n nbf0))) = Some f \<and>
    load_basis_file f = Inr (M, Mc, OpLeft, OpRight) \<and> M \<noteq> NoneObj \<longrightarrow>
      get_basis_sets_cached ext n nbf0 (Some d) verbose w = (Inr (M, Mc, OpLeft, OpRight), w)) \<and>
   (get_basis_sets_cached ext n nbf0 (Some d) verbose w = (Inr r, w1) \<longrightarrow>
      get_basis_sets_cached ext n nbf0 (Some d) verbose w1 = (Inr r, w1) \<and>
      (synth_log w1 = synth_log w \<or> synth_log w1 = synth_log w @ [(n, nbf_default n nbf0)]))"
  using cached_hit cached_idempotent by blast

theorem cache_hit_idempotent_witness:
  "get_basis_sets_cached ext_ref 3 None (Some ''.'') False legacy_world
     = (Inr (Arr M3, Arr Mc3, Arr left3, Arr right3), legacy_world) \<and>
   \<not> isl (fst (get_basis_sets_cached ext_ref 3 None (Some ''.'') False empty_world)) \<and>
   get_basis_sets_cached ext_ref 3 None (Some ''.'') False
       (snd (get_basis_sets_cached ext_ref 3 None (Some ''.'') False empty_world))
     = get_basis_sets_cached ext_ref 3 None (Some ''.'') False empty_world \<and>
   synth_log (snd (get_basis_sets_cached ext_ref 3 None (Some ''.'') False empty_world))
     = [(3, 1)]"
proof -
  let ?res = "get_basis_sets_cached ext_ref 3 None (Some ''.'') False empty_world"
  have hit: "files legacy_world (path_join ''.'' (basis_name 3 (nbf_default 3 None)))
               = Some legacy_file3 \<and>
             load_basis_file legacy_file3 = Inr (Arr M3, Arr Mc3, Arr left3, Arr right3) \<and>
             Arr M3 \<noteq> NoneObj"
    using load_basis_file_fallback[OF load_current_four, of "Arr left3" "Arr right3" "Arr M3" "Arr Mc3"]
    by (simp add: legacy_world_def legacy_file3_def legacy_tuple_def nbf_default_def load_legacy_four)
  have ok: "\<not> isl (fst ?res)" by (rule cached_3_empty)
  then have eq: "?res = (Inr (projr (fst ?res)), snd ?res)"
    by (cases ?res, cases "fst ?res") auto
  have fs: "files empty_world (path_join ''.'' (basis_name 3 (nbf_default 3 None))) = None"
    by (simp add: empty_world_def)
  have log: "synth_log (snd ?res) = [(3, 1)]"
    using ok fs
    by (auto simp: cached_cases Let_def synthesize_and_save_def np_save_def empty_world_def
          nbf_default_def split: sum.splits prod.splits if_splits)
  note c1 = cache_hit_idempotent[of legacy_world "''.''" 3 None legacy_file3 "Arr M3" "Arr Mc3"
      "Arr left3" "Arr right3" ext_ref False]
  note c2 = cache_hit_idempotent[of empty_world "''.''" 3 None _ _ _ _ _ ext_ref False
      "projr (fst ?res)" "snd ?res"]
  have "get_basis_sets_cached ext_ref 3 None (Some ''.'') False (snd ?res) = ?res"
    using c2 eq by metis
  then show ?thesis
    using c1 hit ok log by simp
qed

text \<open>
  Claim C10. The constructor replaces \<open>n\<close> by \<open>2 (n div 2) + 1\<close>, which is odd, equal to
  \<open>n\<close> for an odd \<open>n\<close> and to \<open>n + 1\<close> for an even one. That value is the one passed to the
  cache lookup, stored in the object for the transform, logged at a call of the
  synthesizer and used in the only path that may change on disk. The constructor never
  raises the odd-size error, which a direct call of the synthesizer with an even size does
  raise.
\<close>

theorem BASEX_init_odd_size:
  "(2 * (n div 2) + 1) mod 2 = 1 \<and>
   (n mod 2 = 0 \<longrightarrow> 2 * (n div 2) + 1 = n + 1) \<and>
   (n mod 2 = 1 \<longrightarrow> 2 * (n div 2) + 1 = n) \<and>
   BASEX_init ext n nbf dir cs dr v w =
     (case get_basis_sets_cached ext (2 * (n div 2) + 1) nbf dir v w of
        (Inl e, w') \<Rightarrow> (Inl e, w')
      | (Inr (M, Mc, M_left, M_right), w') \<Rightarrow>
          (Inr \<lparr>verbose_of = v, calc_speeds_of = cs, dr_of = dr, n_of = 2 * (n div 2) + 1,
                M_of = M, Mc_of = Mc, M_left_of = M_left, M_right_of = M_right\<rparr>, w')) \<and>
   fst (BASEX_init ext n nbf dir cs dr v w) \<noteq> Inl (ValueError OddSize) \<and>
   (\<forall>b. fst (BASEX_init ext n nbf dir cs dr v w) = Inr b \<longrightarrow> n_of b = 2 * (n div 2) + 1) \<and>
   (synth_log (snd (BASEX_init ext n nbf dir cs dr v w)) = synth_log w \<or>
    synth_log (snd (BASEX_init ext n nbf dir cs dr v w)) =
      synth_log w @ [(2 * (n div 2) + 1, nbf_default (2 * (n div 2) + 1) nbf)]) \<and>
   (\<forall>p. (\<forall>d. dir = Some d \<longrightarrow>
             p \<noteq> path_join d (basis_name (2 * (n div 2) + 1)
                                  (nbf_default (2 * (n div 2) + 1) nbf))) \<longrightarrow>
        files (snd (BASEX_init ext n nbf dir cs dr v w)) p = files w p) \<and>
   (n mod 2 = 0 \<longrightarrow> generate_basis_sets lnGamma n nbf v = Inl (ValueError OddSize))"
proof -
  let ?n = "2 * (n div 2) + 1"
  let ?c = "get_basis_sets_cached ext ?n nbf dir v w"
  have odd: "?n mod 2 = 1" by presburger
  have a: "n mod 2 = 0 \<longrightarrow> ?n = n + 1" "n mod 2 = 1 \<longrightarrow> ?n = n" by presburger+
  have ne: "?n mod 2 \<noteq> 0" using odd by simp
  have e: "fst (BASEX_init ext n nbf dir cs dr v w) \<noteq> Inl (ValueError OddSize)"
    using cached_not_OddSize[OF ne, of ext nbf dir v w] by (simp add: BASEX_init_fst_snd(2))
  have wd: "writable (snd ?c) = writable w \<and>
         (synth_log (snd ?c) = synth_log w \<or>
          synth_log (snd ?c) = synth_log w @ [(?n, nbf_default ?n nbf)]) \<and>
         (\<forall>p. (\<forall>d. dir = Some d \<longrightarrow> p \<noteq> path_join d (basis_name ?n (nbf_default ?n nbf)))
              \<longrightarrow> files (snd ?c) p = files w p)"
    by (rule cached_world[of ext ?n nbf dir v w "fst ?c"]) simp
  have g: "n mod 2 = 0 \<longrightarrow> generate_basis_sets lnGamma n nbf v = Inl (ValueError OddSize)"
    by (simp add: generate_basis_sets_def)
  show ?thesis
    using odd a e wd g BASEX_init_fst_snd(3)[of ext n nbf dir cs dr v w]
    by (simp add: BASEX_init_fst_snd(1) BASEX_init_unfold[symmetric])
qed

theorem BASEX_init_odd_size_witness:
  "(2::int) mod 2 = 0 \<and> 2 * ((2::int) div 2) + 1 = 3 \<and>
   \<not> isl (fst (BASEX_init ext_ref 2 None (Some ''.'') False (PyNumber 1) False empty_world)) \<and>
   n_of (projr (fst (BASEX_init ext_ref 2 None (Some ''.'') False (PyNumber 1) False empty_world))) = 3 \<and>
   synth_log (snd (BASEX_init ext_ref 2 None (Some ''.'') False (PyNumber 1) False empty_world)) = [(3, 1)] \<and>
   generate_basis_sets gammaln_ref 2 None False = Inl (ValueError OddSize)"
proof -
  let ?b = "BASEX_init ext_ref 2 None (Some ''.'') False (PyNumber 1) False empty_world"
  let ?res = "get_basis_sets_cached ext_ref 3 None (Some ''.'') False empty_world"
  have ok: "\<not> isl (fst ?res)" by (rule cached_3_empty)
  then have okb: "\<not> isl (fst ?b)"
    by (cases ?res, cases "fst ?res") (auto simp: BASEX_init_def Let_def split: prod.splits)
  then have eq: "fst ?b = Inr (projr (fst ?b))"
    by (cases "fst ?b") auto
  have fs: "files empty_world (path_join ''.'' (basis_name 3 (nbf_default 3 None))) = None"
    by (simp add: empty_world_def)
  have log: "synth_log (snd ?res) = [(3, 1)]"
    using ok fs
    by (auto simp: cached_cases Let_def synthesize_and_save_def np_save_def empty_world_def
          nbf_default_def split: sum.splits prod.splits if_splits)
  have logb: "synth_log (snd ?b) = [(3, 1)]"
    using log by (simp add: BASEX_init_fst_snd(1))
  note t = BASEX_init_odd_size[of 2 ext_ref None "Some ''.''" False "PyNumber 1" False empty_world
      gammaln_ref]
  have "n_of (projr (fst ?b)) = 3"
    using t eq by auto
  moreover have "generate_basis_sets gammaln_ref 2 None False = Inl (ValueError OddSize)"
    using t by simp
  ultimately show ?thesis
    using okb logb by simp
qed

end
